theory Spec2Isabelle
  imports Main "HOL-Library.Char_ord" "HOL-Library.List_Lexorder" "HOL-Library.Multiset"
begin

section \<open>The state-type generator (state-type-gen)\<close>

text \<open>
  Go strings are byte sequences and \<open><\<close> on them is bytewise lexicographic: this is the
  order of \<^typ>\<open>string\<close> under \<open>Char_ord\<close> and \<open>List_Lexorder\<close>.

  A Go \<open>error\<close> result and a run-time panic are both values of \<open>failure\<close>; a function that
  can fail returns \<open>failure + 'a\<close>, one that returns only an \<open>error\<close> returns
  \<open>failure option\<close> (\<open>None\<close> is \<open>nil\<close>).
\<close>

datatype failure =
    IndexOutOfRange
  | NilDereference
  | Error string

subsection \<open>Syntax nodes as the visitor sees them\<close>

text \<open>
  \<open>metaVisitor.Visit\<close> inspects the dynamic type of the node and, of a node, only: the
  name of a \<open>*ast.TypeSpec\<close> and whether its \<open>Type\<close> is a \<open>*ast.StructType\<close> or an
  \<open>*ast.Ident\<close>; the name of a \<open>*ast.FuncDecl\<close> and whether \<open>Recv\<close> is non-nil; the
  \<open>Names\<close> of a \<open>*ast.ValueSpec\<close>. Every other node (and the \<open>nil\<close> that \<open>ast.Walk\<close>
  passes after the children of a node) is \<open>OtherNode\<close>.
\<close>

datatype type_expr = StructType | Ident | OtherType

datatype node =
    TypeSpec string type_expr
  | FuncDecl string bool
  | ValueSpec "string list"
  | OtherNode

text \<open>A file system: the content of each existing path.\<close>

type_synonym fsys = "string \<rightharpoonup> string"

text \<open>
  What the program takes from outside this file: \<open>token.IsExported\<close> (behind
  \<open>Ident.IsExported\<close>), \<open>util.FindPackageLocation\<close>, \<open>parser.ParseDir\<close> (given the
  location and the file filter; its result is the packages, each the files, each the nodes
  in the order \<open>ast.Walk\<close> visits them, packages and files in the order the two \<open>range\<close>
  loops over the maps happen to take), \<open>util.FmtFile\<close>, \<open>os.WriteFile\<close>, and the constants
  \<open>actors.Version8\<close> and \<open>actors.LatestVersion\<close>.
\<close>

record env =
  IsExported :: "string \<Rightarrow> bool"
  FindPackageLocation :: "string \<Rightarrow> failure + string"
  ParseDir :: "string \<Rightarrow> (string \<Rightarrow> bool) \<Rightarrow> failure + node list list list"
  FmtFile :: "string \<Rightarrow> string \<Rightarrow> failure + string"
  osWriteFile :: "string \<Rightarrow> string \<Rightarrow> nat \<Rightarrow> fsys \<Rightarrow> failure option \<times> fsys"
  Version8 :: nat
  LatestVersion :: nat

subsection \<open>The package table\<close>

record pendingPkg =
  name :: string
  path :: string
  ver :: nat

definition digit :: "nat \<Rightarrow> char" where
  "digit d = char_of (48 + d)"

fun showNat :: "nat \<Rightarrow> string" where
  "showNat n = (if n < 10 then [digit n] else showNat (n div 10) @ [digit (n mod 10)])"

declare showNat.simps [simp del]

definition prePath :: string where
  "prePath = ''github.com/filecoin-project/go-state-types/builtin''"

text \<open>\<open>fmt.Sprintf("%s/v%v/%s", prePath, v, pkgName)\<close>\<close>

definition pkgPath :: "nat \<Rightarrow> string \<Rightarrow> string" where
  "pkgPath v pkgName = prePath @ ''/v'' @ showNat v @ ''/'' @ pkgName"

text \<open>
  The map \<open>pendingPkgs\<close>, as the association list of its four entries; \<open>map_of\<close> looks a
  key up. The order of the list is the order of construction and means nothing: a \<open>range\<close>
  over the map may take any order.
\<close>

definition pendingPkgs :: "env \<Rightarrow> (string \<times> pendingPkg) list" where
  "pendingPkgs e =
     (''paych'', \<lparr>name = ''paych'', path = pkgPath (Version8 e) ''paych'', ver = Version8 e\<rparr>) #
     map (\<lambda>pkgName. (pkgName,
            \<lparr>name = pkgName, path = pkgPath (LatestVersion e) pkgName, ver = LatestVersion e\<rparr>))
         [''market'', ''miner'', ''verifreg'']"

definition skips :: "string set" where
  "skips = {''State'', ''MinerInfo'', ''ConstructState'', ''Partition'', ''Deadline''}"

definition skipFuncs :: "string set" where
  "skipFuncs = {''ConstructState''}"

text \<open>
  The rename table \<open>alias\<close> of the source (named \<open>aliases\<close> here, \<open>alias\<close> being a
  command of Isabelle): for a type name, the pairs (pkgName, newName).
\<close>

definition aliases :: "string \<rightharpoonup> (string \<times> string) list" where
  "aliases = [''WithdrawBalanceParams'' \<mapsto>
      [(''market'', ''MarketWithdrawBalanceParams''),
       (''miner'', ''MinerWithdrawBalanceParams'')]]"

definition expectVals :: "string set" where
  "expectVals = {''NoAllocationID''}"

subsection \<open>toList and filter\<close>

text \<open>
  \<open>toList\<close> gets the entries of the map in the order the \<open>range\<close> takes them and sorts
  the packages by name. \<open>sort.Slice\<close> is not stable; on keys that are pairwise different
  (the names of \<open>pendingPkgs\<close> are) every sorting algorithm gives the result of
  \<open>sort_key\<close>.
\<close>

definition toList :: "(string \<times> pendingPkg) list \<Rightarrow> pendingPkg list" where
  "toList pkgs = sort_key name (map snd pkgs)"

text \<open>\<open>strings.Contains\<close>, and the function \<open>filter\<close> of the source as \<open>filter_file\<close>.\<close>

fun Contains :: "string \<Rightarrow> string \<Rightarrow> bool" where
  "Contains [] substr = (substr = [])"
| "Contains (c # cs) substr = (take (length substr) (c # cs) = substr \<or> Contains cs substr)"

definition filter_file :: "string \<Rightarrow> bool" where
  "filter_file fname =
     (if Contains fname ''cbor_gen.go'' then False
      else if Contains fname ''_test.go'' then False
      else if Contains fname ''invariants.go'' then False
      else if Contains fname ''methods.go'' then False
      else True)"

subsection \<open>metaVisitor\<close>

text \<open>The fields \<open>f\<close>, \<open>t\<close> and \<open>v\<close> of the source are \<open>vis_f\<close>, \<open>vis_t\<close> and \<open>vis_v\<close>.\<close>

record metaVisitor =
  pkgName :: string
  vis_f :: "string list"
  vis_t :: "string list"
  vis_v :: "string list"

text \<open>
  \<open>Visit\<close> works on the visitor behind its pointer receiver and returns that pointer: the
  model returns the visitor after the call, or the panic. In the third branch the source
  reads \<open>vt.Names[0]\<close> before it compares \<open>len(vt.Names)\<close> with 0.
\<close>

fun Visit :: "env \<Rightarrow> node \<Rightarrow> metaVisitor \<Rightarrow> failure + metaVisitor" where
  "Visit e (TypeSpec nm ty) v =
     (if \<not> IsExported e nm then Inr v
      else if nm \<notin> skips \<and> (ty = StructType \<or> ty = Ident)
        then Inr (v\<lparr>vis_t := vis_t v @ [nm]\<rparr>)
        else Inr v)"
| "Visit e (FuncDecl nm recv) v =
     (if \<not> IsExported e nm \<or> recv then Inr v
      else if nm \<notin> skipFuncs
        then Inr (v\<lparr>vis_f := vis_f v @ [nm]\<rparr>)
        else Inr v)"
| "Visit e (ValueSpec names) v =
     (case names of
        [] \<Rightarrow> Inl IndexOutOfRange
      | n0 # _ \<Rightarrow>
          if \<not> IsExported e n0 \<or> length names = 0 then Inr v
          else if n0 \<in> expectVals
            then Inr (v\<lparr>vis_v := vis_v v @ [n0]\<rparr>)
            else Inr v)"
| "Visit e OtherNode v = Inr v"

text \<open>
  \<open>ast.Walk(visitor, file)\<close>: \<open>Visit\<close> never returns \<open>nil\<close>, so no subtree is cut off and
  every node of the file is visited, in depth-first order; a panic ends the walk.
\<close>

fun Walk :: "env \<Rightarrow> metaVisitor \<Rightarrow> node list \<Rightarrow> failure + metaVisitor" where
  "Walk e v [] = Inr v"
| "Walk e v (n # ns) = (case Visit e n v of Inl x \<Rightarrow> Inl x | Inr v' \<Rightarrow> Walk e v' ns)"

text \<open>\<open>for _, file := range pkg.Files\<close> and \<open>for _, pkg := range pkgs\<close>\<close>

fun walkFiles :: "env \<Rightarrow> metaVisitor \<Rightarrow> node list list \<Rightarrow> failure + metaVisitor" where
  "walkFiles e v [] = Inr v"
| "walkFiles e v (file # files) =
     (case Walk e v file of Inl x \<Rightarrow> Inl x | Inr v' \<Rightarrow> walkFiles e v' files)"

fun walkPkgs :: "env \<Rightarrow> metaVisitor \<Rightarrow> node list list list \<Rightarrow> failure + metaVisitor" where
  "walkPkgs e v [] = Inr v"
| "walkPkgs e v (pkg # pkgs) =
     (case walkFiles e v pkg of Inl x \<Rightarrow> Inl x | Inr v' \<Rightarrow> walkPkgs e v' pkgs)"

subsection \<open>run\<close>

text \<open>
  The body of the loop of \<open>run\<close> for one package. \<open>sort.Slice\<close> with \<open><\<close> on the strings
  themselves has one possible result, the sorted permutation, which is \<open>sort\<close>. The source
  sorts \<open>f\<close> and \<open>t\<close>; it does not sort \<open>v\<close>.
\<close>

definition scan :: "env \<Rightarrow> pendingPkg \<Rightarrow> failure + metaVisitor" where
  "scan e pkg =
     (case FindPackageLocation e (path pkg) of
        Inl err \<Rightarrow> Inl err
      | Inr location \<Rightarrow>
         (case ParseDir e location filter_file of
            Inl err \<Rightarrow> Inl err
          | Inr pkgs \<Rightarrow>
             (case walkPkgs e \<lparr>pkgName = name pkg, vis_f = [], vis_t = [], vis_v = []\<rparr> pkgs of
                Inl x \<Rightarrow> Inl x
              | Inr visitor \<Rightarrow>
                  Inr (visitor\<lparr>vis_f := sort (vis_f visitor), vis_t := sort (vis_t visitor)\<rparr>))))"

fun scanAll :: "env \<Rightarrow> pendingPkg list \<Rightarrow> failure + metaVisitor list" where
  "scanAll e [] = Inr []"
| "scanAll e (pkg # rest) =
     (case scan e pkg of
        Inl x \<Rightarrow> Inl x
      | Inr visitor \<Rightarrow>
         (case scanAll e rest of Inl x \<Rightarrow> Inl x | Inr metas \<Rightarrow> Inr (visitor # metas)))"

subsection \<open>writeFile\<close>

definition nl :: string where
  "nl = [CHR 0x0A]"

definition header :: string where
  "header =
     ''// Code generated by github.com/filecoin-project/venus/venus-devtool/state-type-gen. DO NOT EDIT.''
     @ nl @ ''package types'' @ nl @ nl"

definition importLine :: "string \<Rightarrow> string" where
  "importLine p = [CHR 0x22] @ p @ [CHR 0x22] @ nl"

definition sepLine :: "string \<Rightarrow> string" where
  "sepLine pk = ''////////// '' @ pk @ '' //////////'' @ nl"

definition typeLine :: "string \<Rightarrow> string \<Rightarrow> string \<Rightarrow> string" where
  "typeLine new pk typ = ''type '' @ new @ '' = '' @ pk @ ''.'' @ typ @ nl"

definition varLine :: "string \<Rightarrow> string \<Rightarrow> string" where
  "varLine f pk = ''var '' @ f @ '' = '' @ pk @ ''.'' @ f @ nl"

definition constLine :: "string \<Rightarrow> string \<Rightarrow> string" where
  "constLine v pk = ''const '' @ v @ '' = '' @ pk @ ''.'' @ v @ nl"

text \<open>What the loop over \<open>meta.t\<close> writes for one type name.\<close>

definition aliasLines :: "string \<Rightarrow> string \<Rightarrow> string list" where
  "aliasLines pk typ =
     (case aliases typ of
        Some vals \<Rightarrow> map (\<lambda>val. typeLine (snd val) pk typ) (filter (\<lambda>val. fst val = pk) vals)
      | None \<Rightarrow> [typeLine typ pk typ])"

text \<open>
  The writes of one round of the second loop of \<open>writeFile\<close>, one list element for each
  call of \<open>Fprintf\<close> or \<open>Fprintln\<close>.
\<close>

definition groupLines :: "metaVisitor \<Rightarrow> string list" where
  "groupLines meta =
     [sepLine (pkgName meta)]
     @ concat (map (aliasLines (pkgName meta)) (vis_t meta))
     @ map (\<lambda>f. varLine f (pkgName meta)) (vis_f meta)
     @ map (\<lambda>v. constLine v (pkgName meta)) (vis_v meta)
     @ [nl @ nl]"

text \<open>
  The first loop: \<open>pendingPkgs[meta.pkgName].path\<close> dereferences the pointer the map gives,
  which is \<open>nil\<close> for a missing key.
\<close>

fun importLines :: "env \<Rightarrow> metaVisitor list \<Rightarrow> failure + string list" where
  "importLines e [] = Inr []"
| "importLines e (meta # metas) =
     (case map_of (pendingPkgs e) (pkgName meta) of
        None \<Rightarrow> Inl NilDereference
      | Some pkg \<Rightarrow>
         (case importLines e metas of
            Inl x \<Rightarrow> Inl x
          | Inr ls \<Rightarrow> Inr (importLine (path pkg) # ls)))"

definition fileBuffer :: "env \<Rightarrow> metaVisitor list \<Rightarrow> failure + string" where
  "fileBuffer e metas =
     (case importLines e metas of
        Inl x \<Rightarrow> Inl x
      | Inr imports \<Rightarrow>
          Inr (header @ (''import ('' @ nl) @ concat imports @ ('')'' @ nl @ nl)
               @ concat (concat (map groupLines metas))))"

definition writeFile :: "env \<Rightarrow> string \<Rightarrow> metaVisitor list \<Rightarrow> fsys \<Rightarrow> failure option \<times> fsys" where
  "writeFile e dst metas fs =
     (case fileBuffer e metas of
        Inl x \<Rightarrow> (Some x, fs)
      | Inr buf \<Rightarrow>
         (case FmtFile e '''' buf of
            Inl err \<Rightarrow> (Some err, fs)
          | Inr formatedBuf \<Rightarrow> osWriteFile e dst formatedBuf 493 fs))"

text \<open>
  \<open>run\<close>, given the order \<open>iter\<close> in which the \<open>range\<close> of \<open>toList\<close> takes the entries of
  \<open>pendingPkgs\<close>, the destination path (the flag \<open>dst\<close>) and the file system.
\<close>

definition run :: "env \<Rightarrow> (string \<times> pendingPkg) list \<Rightarrow> string \<Rightarrow> fsys \<Rightarrow> failure option \<times> fsys" where
  "run e iter dst fs =
     (case scanAll e (toList iter) of
        Inl x \<Rightarrow> (Some x, fs)
      | Inr metas \<Rightarrow> writeFile e dst metas fs)"

text \<open>
  For the proofs: what one call of \<open>Visit\<close> appends to \<open>t\<close>, to \<open>f\<close> and to \<open>v\<close>, and the
  visitor after a walk that did not panic.
\<close>

fun typeOf :: "env \<Rightarrow> node \<Rightarrow> string list" where
  "typeOf e (TypeSpec nm ty) =
     (if IsExported e nm \<and> nm \<notin> skips \<and> (ty = StructType \<or> ty = Ident) then [nm] else [])"
| "typeOf e nd = []"

fun funcOf :: "env \<Rightarrow> node \<Rightarrow> string list" where
  "funcOf e (FuncDecl nm recv) =
     (if IsExported e nm \<and> \<not> recv \<and> nm \<notin> skipFuncs then [nm] else [])"
| "funcOf e nd = []"

fun valueOf :: "env \<Rightarrow> node \<Rightarrow> string list" where
  "valueOf e (ValueSpec (n0 # rest)) =
     (if IsExported e n0 \<and> n0 \<in> expectVals then [n0] else [])"
| "valueOf e nd = []"

definition collected :: "env \<Rightarrow> metaVisitor \<Rightarrow> node list \<Rightarrow> metaVisitor" where
  "collected e v ns =
     v\<lparr>vis_f := vis_f v @ concat (map (funcOf e) ns),
       vis_t := vis_t v @ concat (map (typeOf e) ns),
       vis_v := vis_v v @ concat (map (valueOf e) ns)\<rparr>"

text \<open>\<open>vt.Names[0]\<close> of a value spec that has names.\<close>

fun firstName :: "node \<Rightarrow> string option" where
  "firstName (ValueSpec (n0 # rest)) = Some n0"
| "firstName nd = None"

text \<open>
  Sample inputs, at which the theorems are instantiated: an environment in which a name is
  exported when it begins with an ASCII capital, every package is found, parsing gives a fixed
  result, formatting changes nothing and writing stores the data under the path.
\<close>

definition upperAscii :: "string \<Rightarrow> bool" where
  "upperAscii s = (case s of [] \<Rightarrow> False | c # _ \<Rightarrow> CHR ''A'' \<le> c \<and> c \<le> CHR ''Z'')"

definition sampleEnv :: "(string \<Rightarrow> failure + node list list list) \<Rightarrow> env" where
  "sampleEnv parse =
     \<lparr>IsExported = upperAscii,
      FindPackageLocation = (\<lambda>p. Inr (''/mod/'' @ p)),
      ParseDir = (\<lambda>loc flt. parse loc),
      FmtFile = (\<lambda>fname src. Inr src),
      osWriteFile = (\<lambda>dst data perm fs. (None, fs(dst \<mapsto> data))),
      Version8 = 8,
      LatestVersion = 9\<rparr>"

definition sampleTree :: "node list list list" where
  "sampleTree =
     [[[TypeSpec ''Foo'' StructType, TypeSpec ''State'' StructType, OtherNode],
       [FuncDecl ''Bar'' False, FuncDecl ''Baz'' True, ValueSpec [''NoAllocationID'']]],
      [[TypeSpec ''WithdrawBalanceParams'' StructType, TypeSpec ''Abc'' Ident,
        ValueSpec [''Other'', ''NoAllocationID'']]]]"

text \<open>The name a type spec declares, and the name a function declaration without receiver
  declares.\<close>

fun typeSpecName :: "node \<Rightarrow> string option" where
  "typeSpecName (TypeSpec nm ty) = Some nm"
| "typeSpecName nd = None"

fun topFuncName :: "node \<Rightarrow> string option" where
  "topFuncName (FuncDecl nm recv) = (if recv then None else Some nm)"
| "topFuncName nd = None"

definition samplePkg :: "string \<Rightarrow> pendingPkg" where
  "samplePkg nm = \<lparr>name = nm, path = pkgPath 9 nm, ver = 9\<rparr>"


definition secondName :: "node list list list" where
  "secondName = [[[ValueSpec [''Other'', ''NoAllocationID'']]]]"

definition twoFuncs :: "node list list list" where
  "twoFuncs = [[[FuncDecl ''Bar'' False], [FuncDecl ''Bar'' False]]]"

definition methodAndFunc :: "node list list list" where
  "methodAndFunc = [[[FuncDecl ''Bar'' True, FuncDecl ''Bar'' False]]]"

definition twoValueSpecs :: "node list list list" where
  "twoValueSpecs = [[[ValueSpec [''NoAllocationID'']], [ValueSpec [''NoAllocationID'', ''X'']]]]"

definition sameNameTypeAndValue :: "node list list list" where
  "sameNameTypeAndValue = [[[TypeSpec ''Other'' StructType, ValueSpec [''Other'']]]]"

definition twoFiles :: "node list list list" where
  "twoFiles = [[[TypeSpec ''Foo'' StructType], [TypeSpec ''Foo'' StructType]]]"

definition failingParse :: "string \<Rightarrow> failure + node list list list" where
  "failingParse loc =
     (if loc = ''/mod/'' @ pkgPath 9 ''miner'' then Inl (Error ''expected declaration'')
      else Inr sampleTree)"

definition failingFmt :: env where
  "failingFmt = (sampleEnv (\<lambda>loc. Inr sampleTree))\<lparr>FmtFile := (\<lambda>fname src. Inl (Error ''format''))\<rparr>"

text \<open>
  Two results of \<open>parser.ParseDir\<close> for the same directory: the same error, or the same
  packages with the same files, whatever the order in which the two maps are ranged over.
\<close>

fun sameParse :: "failure + node list list list \<Rightarrow> failure + node list list list \<Rightarrow> bool" where
  "sameParse (Inl a) (Inl b) = (a = b)"
| "sameParse (Inr x) (Inr y) = (mset (map mset x) = mset (map mset y))"
| "sameParse (Inl a) (Inr y) = False"
| "sameParse (Inr x) (Inl b) = False"

definition sampleTreePermuted :: "node list list list" where
  "sampleTreePermuted =
     [[[TypeSpec ''WithdrawBalanceParams'' StructType, TypeSpec ''Abc'' Ident,
        ValueSpec [''Other'', ''NoAllocationID'']]],
      [[FuncDecl ''Bar'' False, FuncDecl ''Baz'' True, ValueSpec [''NoAllocationID'']],
       [TypeSpec ''Foo'' StructType, TypeSpec ''State'' StructType, OtherNode]]]"

definition sampleMeta :: metaVisitor where
  "sampleMeta = \<lparr>pkgName = ''paych'', vis_f = [''Bar''], vis_t = [''Foo''], vis_v = []\<rparr>"

definition sampleBuffer :: string where
  "sampleBuffer =
     header @ (''import ('' @ nl) @ importLine (pkgPath 8 ''paych'') @ ('')'' @ nl @ nl)
     @ sepLine ''paych'' @ typeLine ''Foo'' ''paych'' ''Foo'' @ varLine ''Bar'' ''paych'' @ (nl @ nl)"

text \<open>
  Modelled from the spec: \<open>util.FmtFile\<close>, a function of this repository
  (\<open>venus-devtool/util\<close>) that is not among the sources at hand. The spec says of it that
  it is a canonicalizing formatter that also prunes unused imports. The model prunes and
  changes nothing else: it drops every import line (a line that begins with a double quote)
  whose package, the last element of the quoted path, no other line refers to as \<open>pkg.\<close>.
  What canonicalizing changes besides is not modelled, and the model never fails.
\<close>

fun linesOf :: "string \<Rightarrow> string list" where
  "linesOf [] = []"
| "linesOf (c # cs) =
     (if c = CHR 0x0A then [] # linesOf cs
      else (case linesOf cs of [] \<Rightarrow> [[c]] | l # ls \<Rightarrow> (c # l) # ls))"

definition unlines :: "string list \<Rightarrow> string" where
  "unlines ls = concat (map (\<lambda>l. l @ nl) ls)"

definition isImportLine :: "string \<Rightarrow> bool" where
  "isImportLine l = (case l of [] \<Rightarrow> False | c # _ \<Rightarrow> c = CHR 0x22)"

definition importedPkg :: "string \<Rightarrow> string" where
  "importedPkg l = rev (takeWhile (\<lambda>c. c \<noteq> CHR ''/'') (rev (butlast (tl l))))"

definition refersTo :: "string \<Rightarrow> string list \<Rightarrow> bool" where
  "refersTo p ls = list_ex (\<lambda>l. if isImportLine l then False else Contains l (p @ ''.'')) ls"

text \<open>Modelled from the spec: \<open>util.FmtFile(path, src)\<close>, pruning the unused imports of \<open>src\<close>.\<close>

definition specFmtFile :: "string \<Rightarrow> string \<Rightarrow> failure + string" where
  "specFmtFile fname src =
     (let ls = linesOf src
      in Inr (unlines (filter (\<lambda>l. if isImportLine l then refersTo (importedPkg l) ls else True) ls)))"

text \<open>
  A sample run with that formatter, in which the directory of \<open>verifreg\<close> holds one type, of
  a name in the skip set.
\<close>

definition skippedOnlyParse :: "string \<Rightarrow> failure + node list list list" where
  "skippedOnlyParse loc =
     (if loc = ''/mod/'' @ pkgPath 9 ''verifreg'' then Inr [[[TypeSpec ''State'' StructType]]]
      else Inr sampleTree)"

definition pruningEnv :: env where
  "pruningEnv = (sampleEnv skippedOnlyParse)\<lparr>FmtFile := specFmtFile\<rparr>"

definition prunedMetas :: "metaVisitor list" where
  "prunedMetas =
     map (\<lambda>n. \<lparr>pkgName = n, vis_f = [''Bar''],
                vis_t = [''Abc'', ''Foo'', ''WithdrawBalanceParams''], vis_v = [''NoAllocationID'']\<rparr>)
       [''market'', ''miner'', ''paych'']
     @ [\<lparr>pkgName = ''verifreg'', vis_f = [], vis_t = [], vis_v = []\<rparr>]"

definition prunedFile :: string where
  "prunedFile =
     header
     @ (''import ('' @ nl)
     @ concat [importLine (pkgPath 9 ''market''), importLine (pkgPath 9 ''miner''),
               importLine (pkgPath 8 ''paych'')]
     @ ('')'' @ nl @ nl)
     @ concat (concat (map groupLines prunedMetas))"

definition sampleMetas :: "metaVisitor list" where
  "sampleMetas =
     map (\<lambda>n. \<lparr>pkgName = n, vis_f = [''Bar''],
                vis_t = [''Abc'', ''Foo'', ''WithdrawBalanceParams''], vis_v = [''NoAllocationID'']\<rparr>)
       [''market'', ''miner'', ''paych'', ''verifreg'']"

section \<open>The generated gateway proxies (proxy_gen.go)\<close>

text \<open>
  The types the signatures mention come from other packages; nothing here looks into them.
  A pointer is an \<open>option\<close>, a slice a list, \<open>[]byte\<close> and \<open>string\<close> a \<^typ>\<open>string\<close>,
  \<open>error\<close> a \<^typ>\<open>failure option\<close>; \<open>types.Version\<close> is \<open>APIVersion\<close>.
\<close>

typedecl Context

typedecl Address

typedecl ExtendedSectorInfo

typedecl PoStRandomness

typedecl ChainEpoch

typedecl NetworkVersion

typedecl PoStProof

typedecl MinerState

typedecl ProofRegisterPolicy

typedecl RequestEventChan

typedecl ResponseEvent

typedecl WalletDetail

typedecl MsgMeta

typedecl Signature

typedecl UUID

typedecl WalletRegisterPolicy

typedecl Cid

typedecl SectorRef

typedecl PaddedByteIndex

typedecl PaddedPieceSize

typedecl MarketConnectionState

typedecl MarketRegisterPolicy

typedecl APIVersion

text \<open>
  A Go function value is \<open>nil\<close> or a function that may act on the world outside the struct
  (\<open>'w\<close>), and calling \<open>nil\<close> panics. A field of function type holds such a value.
\<close>

type_synonym ('a, 'r, 'w) gofunc = "('a \<Rightarrow> 'w \<Rightarrow> 'r \<times> 'w) option"

definition callFn :: "('a, 'r, 'w) gofunc \<Rightarrow> 'a \<Rightarrow> 'w \<Rightarrow> failure + ('r \<times> 'w)" where
  "callFn fn args w = (case fn of None \<Rightarrow> Inl NilDereference | Some g \<Rightarrow> Inr (g args w))"

record 'w IProofClientStruct_Internal =
  ComputeProof :: "(Context \<times> Address \<times> ExtendedSectorInfo list \<times> PoStRandomness \<times> ChainEpoch \<times> NetworkVersion, PoStProof list \<times> failure option, 'w) gofunc"
  ListConnectedMiners :: "(Context, Address list \<times> failure option, 'w) gofunc"
  ListMinerConnection :: "(Context \<times> Address, MinerState option \<times> failure option, 'w) gofunc"

record 'w IProofClientStruct =
  IProofClient_Internal :: "'w IProofClientStruct_Internal"

definition IProofClientStruct_ComputeProof ::
  "'w IProofClientStruct option \<Rightarrow> Context \<Rightarrow> Address \<Rightarrow> (ExtendedSectorInfo list) \<Rightarrow> PoStRandomness \<Rightarrow> ChainEpoch \<Rightarrow> NetworkVersion \<Rightarrow> 'w \<Rightarrow> failure + ((PoStProof list \<times> failure option) \<times> 'w)" where
  "IProofClientStruct_ComputeProof s p0 p1 p2 p3 p4 p5 w =
     (case s of
        None \<Rightarrow> Inl NilDereference
      | Some st \<Rightarrow> callFn (ComputeProof (IProofClient_Internal st)) (p0, p1, p2, p3, p4, p5) w)"

definition IProofClientStruct_ListConnectedMiners ::
  "'w IProofClientStruct option \<Rightarrow> Context \<Rightarrow> 'w \<Rightarrow> failure + ((Address list \<times> failure option) \<times> 'w)" where
  "IProofClientStruct_ListConnectedMiners s p0 w =
     (case s of
        None \<Rightarrow> Inl NilDereference
      | Some st \<Rightarrow> callFn (ListConnectedMiners (IProofClient_Internal st)) p0 w)"

definition IProofClientStruct_ListMinerConnection ::
  "'w IProofClientStruct option \<Rightarrow> Context \<Rightarrow> Address \<Rightarrow> 'w \<Rightarrow> failure + ((MinerState option \<times> failure option) \<times> 'w)" where
  "IProofClientStruct_ListMinerConnection s p0 p1 w =
     (case s of
        None \<Rightarrow> Inl NilDereference
      | Some st \<Rightarrow> callFn (ListMinerConnection (IProofClient_Internal st)) (p0, p1) w)"

record 'w IProofServiceProviderStruct_Internal =
  ListenProofEvent :: "(Context \<times> ProofRegisterPolicy option, RequestEventChan \<times> failure option, 'w) gofunc"
  ResponseProofEvent :: "(Context \<times> ResponseEvent option, failure option, 'w) gofunc"

record 'w IProofServiceProviderStruct =
  IProofServiceProvider_Internal :: "'w IProofServiceProviderStruct_Internal"

definition IProofServiceProviderStruct_ListenProofEvent ::
  "'w IProofServiceProviderStruct option \<Rightarrow> Context \<Rightarrow> (ProofRegisterPolicy option) \<Rightarrow> 'w \<Rightarrow> failure + ((RequestEventChan \<times> failure option) \<times> 'w)" where
  "IProofServiceProviderStruct_ListenProofEvent s p0 p1 w =
     (case s of
        None \<Rightarrow> Inl NilDereference
      | Some st \<Rightarrow> callFn (ListenProofEvent (IProofServiceProvider_Internal st)) (p0, p1) w)"

definition IProofServiceProviderStruct_ResponseProofEvent ::
  "'w IProofServiceProviderStruct option \<Rightarrow> Context \<Rightarrow> (ResponseEvent option) \<Rightarrow> 'w \<Rightarrow> failure + ((failure option) \<times> 'w)" where
  "IProofServiceProviderStruct_ResponseProofEvent s p0 p1 w =
     (case s of
        None \<Rightarrow> Inl NilDereference
      | Some st \<Rightarrow> callFn (ResponseProofEvent (IProofServiceProvider_Internal st)) (p0, p1) w)"

record 'w IProofEventStruct =
  IProofClientStruct_embedded :: "'w IProofClientStruct"
  IProofServiceProviderStruct_embedded :: "'w IProofServiceProviderStruct"

record 'w IWalletClientStruct_Internal =
  ListWalletInfo :: "(Context, WalletDetail option list \<times> failure option, 'w) gofunc"
  ListWalletInfoByWallet :: "(Context \<times> string, WalletDetail option \<times> failure option, 'w) gofunc"
  WalletHas :: "(Context \<times> string \<times> Address, bool \<times> failure option, 'w) gofunc"
  WalletSign :: "(Context \<times> string \<times> Address \<times> string \<times> MsgMeta, Signature option \<times> failure option, 'w) gofunc"

record 'w IWalletClientStruct =
  IWalletClient_Internal :: "'w IWalletClientStruct_Internal"

definition IWalletClientStruct_ListWalletInfo ::
  "'w IWalletClientStruct option \<Rightarrow> Context \<Rightarrow> 'w \<Rightarrow> failure + ((WalletDetail option list \<times> failure option) \<times> 'w)" where
  "IWalletClientStruct_ListWalletInfo s p0 w =
     (case s of
        None \<Rightarrow> Inl NilDereference
      | Some st \<Rightarrow> callFn (ListWalletInfo (IWalletClient_Internal st)) p0 w)"

definition IWalletClientStruct_ListWalletInfoByWallet ::
  "'w IWalletClientStruct option \<Rightarrow> Context \<Rightarrow> string \<Rightarrow> 'w \<Rightarrow> failure + ((WalletDetail option \<times> failure option) \<times> 'w)" where
  "IWalletClientStruct_ListWalletInfoByWallet s p0 p1 w =
     (case s of
        None \<Rightarrow> Inl NilDereference
      | Some st \<Rightarrow> callFn (ListWalletInfoByWallet (IWalletClient_Internal st)) (p0, p1) w)"

definition IWalletClientStruct_WalletHas ::
  "'w IWalletClientStruct option \<Rightarrow> Context \<Rightarrow> string \<Rightarrow> Address \<Rightarrow> 'w \<Rightarrow> failure + ((bool \<times> failure option) \<times> 'w)" where
  "IWalletClientStruct_WalletHas s p0 p1 p2 w =
     (case s of
        None \<Rightarrow> Inl NilDereference
      | Some st \<Rightarrow> callFn (WalletHas (IWalletClient_Internal st)) (p0, p1, p2) w)"

definition IWalletClientStruct_WalletSign ::
  "'w IWalletClientStruct option \<Rightarrow> Context \<Rightarrow> string \<Rightarrow> Address \<Rightarrow> string \<Rightarrow> MsgMeta \<Rightarrow> 'w \<Rightarrow> failure + ((Signature option \<times> failure option) \<times> 'w)" where
  "IWalletClientStruct_WalletSign s p0 p1 p2 p3 p4 w =
     (case s of
        None \<Rightarrow> Inl NilDereference
      | Some st \<Rightarrow> callFn (WalletSign (IWalletClient_Internal st)) (p0, p1, p2, p3, p4) w)"

record 'w IWalletServiceProviderStruct_Internal =
  AddNewAddress :: "(Context \<times> UUID \<times> Address list, failure option, 'w) gofunc"
  ListenWalletEvent :: "(Context \<times> WalletRegisterPolicy option, RequestEventChan \<times> failure option, 'w) gofunc"
  RemoveAddress :: "(Context \<times> UUID \<times> Address list, failure option, 'w) gofunc"
  ResponseWalletEvent :: "(Context \<times> ResponseEvent option, failure option, 'w) gofunc"
  SupportNewAccount :: "(Context \<times> UUID \<times> string, failure option, 'w) gofunc"

record 'w IWalletServiceProviderStruct =
  IWalletServiceProvider_Internal :: "'w IWalletServiceProviderStruct_Internal"

definition IWalletServiceProviderStruct_AddNewAddress ::
  "'w IWalletServiceProviderStruct option \<Rightarrow> Context \<Rightarrow> UUID \<Rightarrow> (Address list) \<Rightarrow> 'w \<Rightarrow> failure + ((failure option) \<times> 'w)" where
  "IWalletServiceProviderStruct_AddNewAddress s p0 p1 p2 w =
     (case s of
        None \<Rightarrow> Inl NilDereference
      | Some st \<Rightarrow> callFn (AddNewAddress (IWalletServiceProvider_Internal st)) (p0, p1, p2) w)"

definition IWalletServiceProviderStruct_ListenWalletEvent ::
  "'w IWalletServiceProviderStruct option \<Rightarrow> Context \<Rightarrow> (WalletRegisterPolicy option) \<Rightarrow> 'w \<Rightarrow> failure + ((RequestEventChan \<times> failure option) \<times> 'w)" where
  "IWalletServiceProviderStruct_ListenWalletEvent s p0 p1 w =
     (case s of
        None \<Rightarrow> Inl NilDereference
      | Some st \<Rightarrow> callFn (ListenWalletEvent (IWalletServiceProvider_Internal st)) (p0, p1) w)"

definition IWalletServiceProviderStruct_RemoveAddress ::
  "'w IWalletServiceProviderStruct option \<Rightarrow> Context \<Rightarrow> UUID \<Rightarrow> (Address list) \<Rightarrow> 'w \<Rightarrow> failure + ((failure option) \<times> 'w)" where
  "IWalletServiceProviderStruct_RemoveAddress s p0 p1 p2 w =
     (case s of
        None \<Rightarrow> Inl NilDereference
      | Some st \<Rightarrow> callFn (RemoveAddress (IWalletServiceProvider_Internal st)) (p0, p1, p2) w)"

definition IWalletServiceProviderStruct_ResponseWalletEvent ::
  "'w IWalletServiceProviderStruct option \<Rightarrow> Context \<Rightarrow> (ResponseEvent option) \<Rightarrow> 'w \<Rightarrow> failure + ((failure option) \<times> 'w)" where
  "IWalletServiceProviderStruct_ResponseWalletEvent s p0 p1 w =
     (case s of
        None \<Rightarrow> Inl NilDereference
      | Some st \<Rightarrow> callFn (ResponseWalletEvent (IWalletServiceProvider_Internal st)) (p0, p1) w)"

definition IWalletServiceProviderStruct_SupportNewAccount ::
  "'w IWalletServiceProviderStruct option \<Rightarrow> Context \<Rightarrow> UUID \<Rightarrow> string \<Rightarrow> 'w \<Rightarrow> failure + ((failure option) \<times> 'w)" where
  "IWalletServiceProviderStruct_SupportNewAccount s p0 p1 p2 w =
     (case s of
        None \<Rightarrow> Inl NilDereference
      | Some st \<Rightarrow> callFn (SupportNewAccount (IWalletServiceProvider_Internal st)) (p0, p1, p2) w)"

record 'w IWalletEventStruct =
  IWalletClientStruct_embedded :: "'w IWalletClientStruct"
  IWalletServiceProviderStruct_embedded :: "'w IWalletServiceProviderStruct"

record 'w IMarketClientStruct_Internal =
  IsUnsealed :: "(Context \<times> Address \<times> Cid \<times> SectorRef \<times> PaddedByteIndex \<times> PaddedPieceSize, bool \<times> failure option, 'w) gofunc"
  ListMarketConnectionsState :: "(Context, MarketConnectionState list \<times> failure option, 'w) gofunc"
  SectorsUnsealPiece :: "(Context \<times> Address \<times> Cid \<times> SectorRef \<times> PaddedByteIndex \<times> PaddedPieceSize \<times> string, failure option, 'w) gofunc"

record 'w IMarketClientStruct =
  IMarketClient_Internal :: "'w IMarketClientStruct_Internal"

definition IMarketClientStruct_IsUnsealed ::
  "'w IMarketClientStruct option \<Rightarrow> Context \<Rightarrow> Address \<Rightarrow> Cid \<Rightarrow> SectorRef \<Rightarrow> PaddedByteIndex \<Rightarrow> PaddedPieceSize \<Rightarrow> 'w \<Rightarrow> failure + ((bool \<times> failure option) \<times> 'w)" where
  "IMarketClientStruct_IsUnsealed s p0 p1 p2 p3 p4 p5 w =
     (case s of
        None \<Rightarrow> Inl NilDereference
      | Some st \<Rightarrow> callFn (IsUnsealed (IMarketClient_Internal st)) (p0, p1, p2, p3, p4, p5) w)"

definition IMarketClientStruct_ListMarketConnectionsState ::
  "'w IMarketClientStruct option \<Rightarrow> Context \<Rightarrow> 'w \<Rightarrow> failure + ((MarketConnectionState list \<times> failure option) \<times> 'w)" where
  "IMarketClientStruct_ListMarketConnectionsState s p0 w =
     (case s of
        None \<Rightarrow> Inl NilDereference
      | Some st \<Rightarrow> callFn (ListMarketConnectionsState (IMarketClient_Internal st)) p0 w)"

definition IMarketClientStruct_SectorsUnsealPiece ::
  "'w IMarketClientStruct option \<Rightarrow> Context \<Rightarrow> Address \<Rightarrow> Cid \<Rightarrow> SectorRef \<Rightarrow> PaddedByteIndex \<Rightarrow> PaddedPieceSize \<Rightarrow> string \<Rightarrow> 'w \<Rightarrow> failure + ((failure option) \<times> 'w)" where
  "IMarketClientStruct_SectorsUnsealPiece s p0 p1 p2 p3 p4 p5 p6 w =
     (case s of
        None \<Rightarrow> Inl NilDereference
      | Some st \<Rightarrow> callFn (SectorsUnsealPiece (IMarketClient_Internal st)) (p0, p1, p2, p3, p4, p5, p6) w)"

record 'w IMarketServiceProviderStruct_Internal =
  ListenMarketEvent :: "(Context \<times> MarketRegisterPolicy option, RequestEventChan \<times> failure option, 'w) gofunc"
  ResponseMarketEvent :: "(Context \<times> ResponseEvent option, failure option, 'w) gofunc"

record 'w IMarketServiceProviderStruct =
  IMarketServiceProvider_Internal :: "'w IMarketServiceProviderStruct_Internal"

definition IMarketServiceProviderStruct_ListenMarketEvent ::
  "'w IMarketServiceProviderStruct option \<Rightarrow> Context \<Rightarrow> (MarketRegisterPolicy option) \<Rightarrow> 'w \<Rightarrow> failure + ((RequestEventChan \<times> failure option) \<times> 'w)" where
  "IMarketServiceProviderStruct_ListenMarketEvent s p0 p1 w =
     (case s of
        None \<Rightarrow> Inl NilDereference
      | Some st \<Rightarrow> callFn (ListenMarketEvent (IMarketServiceProvider_Internal st)) (p0, p1) w)"

definition IMarketServiceProviderStruct_ResponseMarketEvent ::
  "'w IMarketServiceProviderStruct option \<Rightarrow> Context \<Rightarrow> (ResponseEvent option) \<Rightarrow> 'w \<Rightarrow> failure + ((failure option) \<times> 'w)" where
  "IMarketServiceProviderStruct_ResponseMarketEvent s p0 p1 w =
     (case s of
        None \<Rightarrow> Inl NilDereference
      | Some st \<Rightarrow> callFn (ResponseMarketEvent (IMarketServiceProvider_Internal st)) (p0, p1) w)"

record 'w IMarketEventStruct =
  IMarketClientStruct_embedded :: "'w IMarketClientStruct"
  IMarketServiceProviderStruct_embedded :: "'w IMarketServiceProviderStruct"

record 'w IGatewayStruct_Internal =
  Version :: "(Context, APIVersion \<times> failure option, 'w) gofunc"

record 'w IGatewayStruct =
  IProofEventStruct_embedded :: "'w IProofEventStruct"
  IWalletEventStruct_embedded :: "'w IWalletEventStruct"
  IMarketEventStruct_embedded :: "'w IMarketEventStruct"
  IGateway_Internal :: "'w IGatewayStruct_Internal"

definition IGatewayStruct_Version ::
  "'w IGatewayStruct option \<Rightarrow> Context \<Rightarrow> 'w \<Rightarrow> failure + ((APIVersion \<times> failure option) \<times> 'w)" where
  "IGatewayStruct_Version s p0 w =
     (case s of
        None \<Rightarrow> Inl NilDereference
      | Some st \<Rightarrow> callFn (Version (IGateway_Internal st)) p0 w)"

section \<open>Properties\<close>

lemma Visit_collected:
  "Visit e nd v = (if nd = ValueSpec [] then Inl IndexOutOfRange else Inr (collected e v [nd]))"
proof (cases nd)
  case (ValueSpec names)
  then show ?thesis by (cases names; simp add: collected_def)
qed (simp_all add: collected_def)

lemma collected_Cons: "collected e (collected e v [nd]) ns = collected e v (nd # ns)"
  by (simp add: collected_def)

lemma Walk_collected:
  "Walk e v ns = (if ValueSpec [] \<in> set ns then Inl IndexOutOfRange else Inr (collected e v ns))"
proof (induction ns arbitrary: v)
  case Nil
  show ?case by (simp add: collected_def)
next
  case (Cons nd ns)
  show ?case
    by (auto simp add: Visit_collected Cons.IH collected_Cons simp del: Visit.simps)
qed

lemma Walk_append:
  "Walk e v (xs @ ys) = (case Walk e v xs of Inl x \<Rightarrow> Inl x | Inr v' \<Rightarrow> Walk e v' ys)"
  by (induction xs arbitrary: v) (simp_all split: sum.splits)

lemma walkFiles_concat: "walkFiles e v files = Walk e v (concat files)"
  by (induction files arbitrary: v) (simp_all add: Walk_append split: sum.splits)

lemma walkPkgs_concat: "walkPkgs e v pkgs = Walk e v (concat (concat pkgs))"
  by (induction pkgs arbitrary: v) (simp_all add: walkFiles_concat Walk_append split: sum.splits)


lemma count_list_sort: "count_list (sort xs) y = count_list xs (y::'a::linorder)"
proof -
  have "count (mset (sort xs)) y = count (mset xs) y" by simp
  then show ?thesis by (simp only: count_mset)
qed

lemma count_list_map_inj:
  assumes "\<And>x. g x = g y \<Longrightarrow> x = y"
  shows "count_list (map g xs) (g y) = count_list xs y"
  using assms by (induction xs) auto

lemma count_list_funcOf:
  "count_list (concat (map (funcOf e) ns)) n =
     (if IsExported e n \<and> n \<notin> skipFuncs then count_list ns (FuncDecl n False) else 0)"
proof (induction ns)
  case Nil
  show ?case by simp
next
  case (Cons nd ns)
  show ?case by (cases nd) (use Cons.IH in auto)
qed

lemma count_list_typeOf:
  "count_list (concat (map (typeOf e) ns)) n =
     (if IsExported e n \<and> n \<notin> skips
      then count_list ns (TypeSpec n StructType) + count_list ns (TypeSpec n Ident) else 0)"
proof (induction ns)
  case Nil
  show ?case by simp
next
  case (Cons nd ns)
  show ?case by (cases nd) (use Cons.IH in auto)
qed

lemma count_list_valueOf:
  "count_list (concat (map (valueOf e) ns)) n =
     (if IsExported e n \<and> n \<in> expectVals
      then length (filter (\<lambda>nd. firstName nd = Some n) ns) else 0)"
proof (induction ns)
  case Nil
  show ?case by simp
next
  case (Cons nd ns)
  show ?case
  proof (cases nd)
    case (ValueSpec names)
    then show ?thesis using Cons.IH by (cases names) auto
  qed (use Cons.IH in auto)
qed

lemma varLine_inj: "varLine f pk = varLine n pk \<Longrightarrow> f = n"
proof -
  assume eq: "varLine f pk = varLine n pk"
  then have "length (varLine f pk) = length (varLine n pk)" by simp
  then have len: "length f = length n" by (simp add: varLine_def)
  from eq have "f @ ('' = '' @ pk @ ''.'' @ f @ nl) = n @ ('' = '' @ pk @ ''.'' @ n @ nl)"
    by (simp add: varLine_def)
  with len show "f = n" by simp
qed

lemma constLine_inj: "constLine f pk = constLine n pk \<Longrightarrow> f = n"
proof -
  assume eq: "constLine f pk = constLine n pk"
  then have "length (constLine f pk) = length (constLine n pk)" by simp
  then have len: "length f = length n" by (simp add: constLine_def)
  from eq have "f @ ('' = '' @ pk @ ''.'' @ f @ nl) = n @ ('' = '' @ pk @ ''.'' @ n @ nl)"
    by (simp add: constLine_def)
  with len show "f = n" by simp
qed


lemma line_kinds [simp]:
  "varLine a p \<noteq> typeLine b q c" "varLine a p \<noteq> constLine b q" "varLine a p \<noteq> sepLine q"
  "varLine a p \<noteq> nl @ nl"
  "typeLine b q c \<noteq> constLine a p" "typeLine b q c \<noteq> sepLine p" "typeLine b q c \<noteq> nl @ nl"
  "constLine a p \<noteq> sepLine q" "constLine a p \<noteq> nl @ nl"
  "typeLine b q c \<noteq> varLine a p" "constLine b q \<noteq> varLine a p"
  "constLine a p \<noteq> typeLine b q c"
  by (simp_all add: varLine_def typeLine_def constLine_def sepLine_def nl_def)



declare line_kinds [THEN not_sym, simp]

lemma scan_result:
  assumes "FindPackageLocation e (path pkg) = Inr loc" and "ParseDir e loc filter_file = Inr pkgs"
  shows "scan e pkg =
     (if ValueSpec [] \<in> set (concat (concat pkgs)) then Inl IndexOutOfRange
      else Inr \<lparr>pkgName = name pkg,
                vis_f = sort (concat (map (funcOf e) (concat (concat pkgs)))),
                vis_t = sort (concat (map (typeOf e) (concat (concat pkgs)))),
                vis_v = concat (map (valueOf e) (concat (concat pkgs)))\<rparr>)"
  using assms by (simp add: scan_def walkPkgs_concat Walk_collected collected_def del: set_concat)

lemma scan_fields:
  assumes "FindPackageLocation e (path pkg) = Inr loc" and "ParseDir e loc filter_file = Inr pkgs"
    and "scan e pkg = Inr meta"
  shows "pkgName meta = name pkg"
    and "vis_f meta = sort (concat (map (funcOf e) (concat (concat pkgs))))"
    and "vis_t meta = sort (concat (map (typeOf e) (concat (concat pkgs))))"
    and "vis_v meta = concat (map (valueOf e) (concat (concat pkgs)))"
  using assms(3) unfolding scan_result [OF assms(1,2)]
  by (auto split: if_splits)


lemma aliasLines_typeLine: "x \<in> set (aliasLines pk t) \<Longrightarrow> \<exists>new. x = typeLine new pk t"
  by (auto simp: aliasLines_def split: option.splits)

lemma var_notin_types: "varLine a p \<notin> set (concat (map (aliasLines pk) ts))"
  by (auto dest!: aliasLines_typeLine)

lemma const_notin_types: "constLine a p \<notin> set (concat (map (aliasLines pk) ts))"
  by (auto dest!: aliasLines_typeLine)

lemma count_group_var:
  "count_list (groupLines m) (varLine n (pkgName m)) = count_list (vis_f m) n"
proof -
  have a: "count_list (concat (map (aliasLines (pkgName m)) (vis_t m))) (varLine n (pkgName m)) = 0"
    by (simp only: count_list_0_iff var_notin_types not_False_eq_True)
  have b: "count_list (map (\<lambda>v. constLine v (pkgName m)) (vis_v m)) (varLine n (pkgName m)) = 0"
    by (auto simp: count_list_0_iff)
  have c: "count_list (map (\<lambda>f. varLine f (pkgName m)) (vis_f m)) (varLine n (pkgName m))
      = count_list (vis_f m) n"
    by (rule count_list_map_inj) (rule varLine_inj)
  show ?thesis by (simp add: groupLines_def a b c)
qed

lemma count_group_const:
  "count_list (groupLines m) (constLine n (pkgName m)) = count_list (vis_v m) n"
proof -
  have a: "count_list (concat (map (aliasLines (pkgName m)) (vis_t m))) (constLine n (pkgName m)) = 0"
    by (simp only: count_list_0_iff const_notin_types not_False_eq_True)
  have b: "count_list (map (\<lambda>f. varLine f (pkgName m)) (vis_f m)) (constLine n (pkgName m)) = 0"
    by (auto simp: count_list_0_iff)
  have c: "count_list (map (\<lambda>v. constLine v (pkgName m)) (vis_v m)) (constLine n (pkgName m))
      = count_list (vis_v m) n"
    by (rule count_list_map_inj) (rule constLine_inj)
  show ?thesis by (simp add: groupLines_def a b c)
qed








lemma distinct_typeOf:
  "distinct (List.map_filter typeSpecName ns) \<Longrightarrow>
     distinct (concat (map (typeOf e) ns)) \<and>
     set (concat (map (typeOf e) ns)) \<subseteq> set (List.map_filter typeSpecName ns)"
proof (induction ns)
  case Nil
  show ?case by (simp add: map_filter_simps)
next
  case (Cons nd ns)
  then show ?case by (cases nd) (auto simp: map_filter_simps)
qed

lemma distinct_funcOf:
  "distinct (List.map_filter topFuncName ns) \<Longrightarrow>
     distinct (concat (map (funcOf e) ns)) \<and>
     set (concat (map (funcOf e) ns)) \<subseteq> set (List.map_filter topFuncName ns)"
proof (induction ns)
  case Nil
  show ?case by (simp add: map_filter_simps)
next
  case (Cons nd ns)
  then show ?case by (cases nd) (auto simp: map_filter_simps split: if_splits)
qed

lemma distinct_valueOf:
  "distinct (List.map_filter firstName ns) \<Longrightarrow>
     distinct (concat (map (valueOf e) ns)) \<and>
     set (concat (map (valueOf e) ns)) \<subseteq> set (List.map_filter firstName ns)"
proof (induction ns)
  case Nil
  show ?case by (simp add: map_filter_simps)
next
  case (Cons nd ns)
  show ?case
  proof (cases nd)
    case (ValueSpec names)
    then show ?thesis using Cons by (cases names) (auto simp: map_filter_simps)
  qed (use Cons in \<open>auto simp: map_filter_simps\<close>)
qed

text \<open>
  Claim C4, as the code has it. In the group of a package, in the text \<open>writeFile\<close>
  assembles, the number of lines \<open>var n = pkg.n\<close> is the number of function declarations of
  \<open>n\<close> in the package that are exported, have no receiver and are not in the function skip
  set: each such declaration gives exactly one binding, every other declaration none. For a
  function that is the only function declaration of its name, the binding appears exactly
  once if and only if the function is exported, has no receiver and is not skipped. Without
  that condition the claim fails, as the theorem after the next shows: two files that both
  declare the function \<open>Bar\<close> give the binding twice, and a method \<open>Bar\<close> beside a function
  \<open>Bar\<close> has a receiver and yet the binding of its name appears once.
\<close>

theorem func_binding_count:
  assumes "FindPackageLocation e (path pkg) = Inr loc"
    and "ParseDir e loc filter_file = Inr pkgs"
    and "scan e pkg = Inr meta"
  shows "count_list (groupLines meta) (varLine n (name pkg)) =
           (if IsExported e n \<and> n \<notin> skipFuncs
            then count_list (concat (concat pkgs)) (FuncDecl n False) else 0)
       \<and> (count_list (concat (concat pkgs)) (FuncDecl n True)
            + count_list (concat (concat pkgs)) (FuncDecl n False) = 1
          \<and> FuncDecl n recv \<in> set (concat (concat pkgs))
          \<longrightarrow> (count_list (groupLines meta) (varLine n (name pkg)) = 1
                 \<longleftrightarrow> IsExported e n \<and> \<not> recv \<and> n \<notin> skipFuncs))"
proof -
  let ?ns = "concat (concat pkgs)"
  have cnt: "count_list (groupLines meta) (varLine n (name pkg)) =
           (if IsExported e n \<and> n \<notin> skipFuncs then count_list ?ns (FuncDecl n False) else 0)"
    using count_group_var [of meta n] scan_fields(1,2) [OF assms]
    by (simp add: count_list_sort count_list_funcOf)
  have once: "count_list (groupLines meta) (varLine n (name pkg)) = 1
                 \<longleftrightarrow> IsExported e n \<and> \<not> recv \<and> n \<notin> skipFuncs"
    if one: "count_list ?ns (FuncDecl n True) + count_list ?ns (FuncDecl n False) = 1"
      and mem: "FuncDecl n recv \<in> set ?ns"
  proof -
    from mem have pos: "0 < count_list ?ns (FuncDecl n recv)"
      using count_list_0_iff [of ?ns "FuncDecl n recv"] by (simp del: set_concat)
    show ?thesis
    proof (cases recv)
      case True
      with pos one have "count_list ?ns (FuncDecl n False) = 0" by simp
      with True cnt show ?thesis by simp
    next
      case False
      with pos one have "count_list ?ns (FuncDecl n False) = 1" by simp
      with False cnt show ?thesis by simp
    qed
  qed
  from cnt once show ?thesis by blast
qed

theorem func_binding_count_witness:
  "FindPackageLocation (sampleEnv (\<lambda>loc. Inr sampleTree)) (path (samplePkg ''miner''))
     = Inr (''/mod/'' @ pkgPath 9 ''miner'')
   \<and> ParseDir (sampleEnv (\<lambda>loc. Inr sampleTree)) (''/mod/'' @ pkgPath 9 ''miner'') filter_file
     = Inr sampleTree
   \<and> scan (sampleEnv (\<lambda>loc. Inr sampleTree)) (samplePkg ''miner'')
     = Inr \<lparr>pkgName = ''miner'', vis_f = [''Bar''],
            vis_t = [''Abc'', ''Foo'', ''WithdrawBalanceParams''], vis_v = [''NoAllocationID'']\<rparr>
   \<and> count_list (concat (concat sampleTree)) (FuncDecl ''Bar'' True)
        + count_list (concat (concat sampleTree)) (FuncDecl ''Bar'' False) = 1
   \<and> FuncDecl ''Bar'' False \<in> set (concat (concat sampleTree))
   \<and> count_list (groupLines \<lparr>pkgName = ''miner'', vis_f = [''Bar''],
            vis_t = [''Abc'', ''Foo'', ''WithdrawBalanceParams''], vis_v = [''NoAllocationID'']\<rparr>)
        (varLine ''Bar'' ''miner'') = 1"
proof -
  let ?E = "sampleEnv (\<lambda>loc. Inr sampleTree)"
  let ?M = "\<lparr>pkgName = ''miner'', vis_f = [''Bar''],
            vis_t = [''Abc'', ''Foo'', ''WithdrawBalanceParams''], vis_v = [''NoAllocationID'']\<rparr>"
  have h1: "FindPackageLocation ?E (path (samplePkg ''miner'')) = Inr (''/mod/'' @ pkgPath 9 ''miner'')"
    by (simp add: sampleEnv_def samplePkg_def)
  have h2: "ParseDir ?E (''/mod/'' @ pkgPath 9 ''miner'') filter_file = Inr sampleTree"
    by (simp add: sampleEnv_def)
  have h3: "scan ?E (samplePkg ''miner'') = Inr ?M"
    by (simp add: scan_def sampleEnv_def samplePkg_def sampleTree_def upperAscii_def
        skips_def skipFuncs_def expectVals_def)
  have h4: "count_list (concat (concat sampleTree)) (FuncDecl ''Bar'' True)
        + count_list (concat (concat sampleTree)) (FuncDecl ''Bar'' False) = 1"
    by (simp add: sampleTree_def)
  have h5: "FuncDecl ''Bar'' False \<in> set (concat (concat sampleTree))"
    by (simp add: sampleTree_def)
  have h6: "IsExported ?E ''Bar'' \<and> \<not> False \<and> ''Bar'' \<notin> skipFuncs"
    by (simp add: sampleEnv_def upperAscii_def skipFuncs_def)
  from func_binding_count [OF h1 h2 h3, of "''Bar''" False] h4 h5 h6
  have "count_list (groupLines ?M) (varLine ''Bar'' ''miner'') = 1"
    by (simp add: samplePkg_def)
  with h1 h2 h3 h4 h5 show ?thesis by blast
qed

theorem function_name_counterexample:
  "IsExported (sampleEnv (\<lambda>loc. Inr twoFuncs)) ''Bar'' \<and> ''Bar'' \<notin> skipFuncs
   \<and> ParseDir (sampleEnv (\<lambda>loc. Inr twoFuncs)) (''/mod/'' @ pkgPath 9 ''paych'') filter_file
       = Inr [[[FuncDecl ''Bar'' False], [FuncDecl ''Bar'' False]]]
   \<and> scan (sampleEnv (\<lambda>loc. Inr twoFuncs)) (samplePkg ''paych'')
       = Inr \<lparr>pkgName = ''paych'', vis_f = [''Bar'', ''Bar''], vis_t = [], vis_v = []\<rparr>
   \<and> count_list
        (groupLines \<lparr>pkgName = ''paych'', vis_f = [''Bar'', ''Bar''], vis_t = [], vis_v = []\<rparr>)
        (varLine ''Bar'' ''paych'') = 2
   \<and> ParseDir (sampleEnv (\<lambda>loc. Inr methodAndFunc)) (''/mod/'' @ pkgPath 9 ''paych'') filter_file
       = Inr [[[FuncDecl ''Bar'' True, FuncDecl ''Bar'' False]]]
   \<and> scan (sampleEnv (\<lambda>loc. Inr methodAndFunc)) (samplePkg ''paych'')
       = Inr \<lparr>pkgName = ''paych'', vis_f = [''Bar''], vis_t = [], vis_v = []\<rparr>
   \<and> count_list
        (groupLines \<lparr>pkgName = ''paych'', vis_f = [''Bar''], vis_t = [], vis_v = []\<rparr>)
        (varLine ''Bar'' ''paych'') = 1"
  by (simp add: scan_def sampleEnv_def samplePkg_def twoFuncs_def methodAndFunc_def upperAscii_def
      skipFuncs_def groupLines_def)

lemma count_list_mem_pos: "x \<in> set xs \<Longrightarrow> 0 < count_list xs x"
  using count_list_0_iff [of xs x] by simp




text \<open>
  Claim C3, as the code has it. Only the first name of a value or constant declaration is
  looked at. In the group of a package, in the text \<open>writeFile\<close> assembles, every value spec
  whose first name is \<open>n\<close> gives exactly one line \<open>const n = pkg.n\<close> when \<open>n\<close> is exported
  and in the allow-list, so that the number of these lines is the number of such specs, and
  it is zero otherwise: a name that is not in the allow-list gets no constant binding. The
  claim as written fails in three places, as the theorem after the next shows: an
  allow-listed exported name in a later position of a spec gets no binding
  (\<open>var Other, NoAllocationID\<close>); an allow-listed name that is first in two specs gets two;
  and a name that is not in the allow-list is mentioned by a line all the same when a type
  (or a function) of the package has that name.
\<close>

theorem const_binding_count:
  assumes "FindPackageLocation e (path pkg) = Inr loc"
    and "ParseDir e loc filter_file = Inr pkgs"
    and "scan e pkg = Inr meta"
  shows "count_list (groupLines meta) (constLine n (name pkg)) =
           (if IsExported e n \<and> n \<in> expectVals
            then length (filter (\<lambda>nd. firstName nd = Some n) (concat (concat pkgs))) else 0)
       \<and> (n \<notin> expectVals \<longrightarrow> constLine n (name pkg) \<notin> set (groupLines meta))"
proof -
  note f = scan_fields(1,4) [OF assms]
  have cnt: "count_list (groupLines meta) (constLine n (name pkg)) =
           (if IsExported e n \<and> n \<in> expectVals
            then length (filter (\<lambda>nd. firstName nd = Some n) (concat (concat pkgs))) else 0)"
    using count_group_const [of meta n] by (simp only: f count_list_valueOf)
  have "constLine n (name pkg) \<notin> set (groupLines meta)" if "n \<notin> expectVals"
    using cnt that count_list_0_iff [of "groupLines meta" "constLine n (name pkg)"] by simp
  with cnt show ?thesis by blast
qed

theorem const_binding_count_witness:
  "FindPackageLocation (sampleEnv (\<lambda>loc. Inr sampleTree)) (path (samplePkg ''verifreg''))
     = Inr (''/mod/'' @ pkgPath 9 ''verifreg'')
   \<and> ParseDir (sampleEnv (\<lambda>loc. Inr sampleTree)) (''/mod/'' @ pkgPath 9 ''verifreg'') filter_file
     = Inr sampleTree
   \<and> scan (sampleEnv (\<lambda>loc. Inr sampleTree)) (samplePkg ''verifreg'')
     = Inr \<lparr>pkgName = ''verifreg'', vis_f = [''Bar''],
            vis_t = [''Abc'', ''Foo'', ''WithdrawBalanceParams''], vis_v = [''NoAllocationID'']\<rparr>
   \<and> count_list (groupLines \<lparr>pkgName = ''verifreg'', vis_f = [''Bar''],
            vis_t = [''Abc'', ''Foo'', ''WithdrawBalanceParams''], vis_v = [''NoAllocationID'']\<rparr>)
        (constLine ''NoAllocationID'' ''verifreg'') = 1
   \<and> ''Other'' \<notin> expectVals
   \<and> constLine ''Other'' ''verifreg''
       \<notin> set (groupLines \<lparr>pkgName = ''verifreg'', vis_f = [''Bar''],
            vis_t = [''Abc'', ''Foo'', ''WithdrawBalanceParams''], vis_v = [''NoAllocationID'']\<rparr>)"
proof -
  let ?E = "sampleEnv (\<lambda>loc. Inr sampleTree)"
  let ?M = "\<lparr>pkgName = ''verifreg'', vis_f = [''Bar''],
            vis_t = [''Abc'', ''Foo'', ''WithdrawBalanceParams''], vis_v = [''NoAllocationID'']\<rparr>"
  have h1: "FindPackageLocation ?E (path (samplePkg ''verifreg'')) = Inr (''/mod/'' @ pkgPath 9 ''verifreg'')"
    by (simp add: sampleEnv_def samplePkg_def)
  have h2: "ParseDir ?E (''/mod/'' @ pkgPath 9 ''verifreg'') filter_file = Inr sampleTree"
    by (simp add: sampleEnv_def)
  have h3: "scan ?E (samplePkg ''verifreg'') = Inr ?M"
    by (simp add: scan_def sampleEnv_def samplePkg_def sampleTree_def upperAscii_def
        skips_def skipFuncs_def expectVals_def)
  have x1: "IsExported ?E ''NoAllocationID'' \<and> ''NoAllocationID'' \<in> expectVals"
    by (simp add: sampleEnv_def upperAscii_def expectVals_def)
  have x2: "''Other'' \<notin> expectVals" by (simp add: expectVals_def)
  have n1: "name (samplePkg ''verifreg'') = ''verifreg''" by (simp add: samplePkg_def)
  from const_binding_count [OF h1 h2 h3, of "''NoAllocationID''"] x1
  have c1: "count_list (groupLines ?M) (constLine ''NoAllocationID'' ''verifreg'') = 1"
    by (simp add: n1 sampleTree_def)
  from const_binding_count [OF h1 h2 h3, of "''Other''"] x2
  have c2: "constLine ''Other'' ''verifreg'' \<notin> set (groupLines ?M)"
    by (simp add: n1)
  from h1 h2 h3 x2 c1 c2 show ?thesis by blast
qed

theorem const_binding_counterexample:
  "IsExported (sampleEnv (\<lambda>loc. Inr secondName)) ''NoAllocationID''
   \<and> ''NoAllocationID'' \<in> expectVals
   \<and> ParseDir (sampleEnv (\<lambda>loc. Inr secondName)) (''/mod/'' @ pkgPath 9 ''verifreg'') filter_file
       = Inr [[[ValueSpec [''Other'', ''NoAllocationID'']]]]
   \<and> scan (sampleEnv (\<lambda>loc. Inr secondName)) (samplePkg ''verifreg'')
       = Inr \<lparr>pkgName = ''verifreg'', vis_f = [], vis_t = [], vis_v = []\<rparr>
   \<and> groupLines \<lparr>pkgName = ''verifreg'', vis_f = [], vis_t = [], vis_v = []\<rparr>
       = [sepLine ''verifreg'', nl @ nl]
   \<and> count_list (groupLines \<lparr>pkgName = ''verifreg'', vis_f = [], vis_t = [], vis_v = []\<rparr>)
        (constLine ''NoAllocationID'' ''verifreg'') = 0
   \<and> ParseDir (sampleEnv (\<lambda>loc. Inr twoValueSpecs)) (''/mod/'' @ pkgPath 9 ''verifreg'') filter_file
       = Inr [[[ValueSpec [''NoAllocationID'']], [ValueSpec [''NoAllocationID'', ''X'']]]]
   \<and> scan (sampleEnv (\<lambda>loc. Inr twoValueSpecs)) (samplePkg ''verifreg'')
       = Inr \<lparr>pkgName = ''verifreg'', vis_f = [], vis_t = [],
              vis_v = [''NoAllocationID'', ''NoAllocationID'']\<rparr>
   \<and> count_list
        (groupLines \<lparr>pkgName = ''verifreg'', vis_f = [], vis_t = [],
              vis_v = [''NoAllocationID'', ''NoAllocationID'']\<rparr>)
        (constLine ''NoAllocationID'' ''verifreg'') = 2
   \<and> IsExported (sampleEnv (\<lambda>loc. Inr sameNameTypeAndValue)) ''Other''
   \<and> ''Other'' \<notin> expectVals
   \<and> ParseDir (sampleEnv (\<lambda>loc. Inr sameNameTypeAndValue)) (''/mod/'' @ pkgPath 9 ''verifreg'')
         filter_file
       = Inr [[[TypeSpec ''Other'' StructType, ValueSpec [''Other'']]]]
   \<and> scan (sampleEnv (\<lambda>loc. Inr sameNameTypeAndValue)) (samplePkg ''verifreg'')
       = Inr \<lparr>pkgName = ''verifreg'', vis_f = [], vis_t = [''Other''], vis_v = []\<rparr>
   \<and> groupLines \<lparr>pkgName = ''verifreg'', vis_f = [], vis_t = [''Other''], vis_v = []\<rparr>
       = [sepLine ''verifreg'', ''type Other = verifreg.Other'' @ nl, nl @ nl]"
  by (simp add: scan_def sampleEnv_def samplePkg_def secondName_def twoValueSpecs_def
      sameNameTypeAndValue_def upperAscii_def skips_def aliases_def expectVals_def groupLines_def
      aliasLines_def typeLine_def)

text \<open>
  Claim C8, as the code has it. \<open>Visit\<close> makes no check for duplicates: each of the three
  lists holds a name as many times as the package has qualifying declarations of that name.
  A list is free of duplicates when the declarations of its kind in the package (type specs;
  receiver-less function declarations; first names of value specs) have pairwise different
  names. Two type specs of one name, in two files or in two function bodies, give the name
  twice, as the theorem after the next shows.
\<close>

theorem name_list_multiplicity:
  assumes "FindPackageLocation e (path pkg) = Inr loc"
    and "ParseDir e loc filter_file = Inr pkgs"
    and "scan e pkg = Inr meta"
  shows "count_list (vis_t meta) n =
           (if IsExported e n \<and> n \<notin> skips
            then count_list (concat (concat pkgs)) (TypeSpec n StructType)
                 + count_list (concat (concat pkgs)) (TypeSpec n Ident)
            else 0)
       \<and> count_list (vis_f meta) n =
           (if IsExported e n \<and> n \<notin> skipFuncs
            then count_list (concat (concat pkgs)) (FuncDecl n False) else 0)
       \<and> count_list (vis_v meta) n =
           (if IsExported e n \<and> n \<in> expectVals
            then length (filter (\<lambda>nd. firstName nd = Some n) (concat (concat pkgs))) else 0)
       \<and> (distinct (List.map_filter typeSpecName (concat (concat pkgs))) \<longrightarrow> distinct (vis_t meta))
       \<and> (distinct (List.map_filter topFuncName (concat (concat pkgs))) \<longrightarrow> distinct (vis_f meta))
       \<and> (distinct (List.map_filter firstName (concat (concat pkgs))) \<longrightarrow> distinct (vis_v meta))"
proof -
  note f = scan_fields(2,3,4) [OF assms]
  have t: "count_list (vis_t meta) n =
           (if IsExported e n \<and> n \<notin> skips
            then count_list (concat (concat pkgs)) (TypeSpec n StructType)
                 + count_list (concat (concat pkgs)) (TypeSpec n Ident)
            else 0)"
    by (simp only: f count_list_sort count_list_typeOf)
  have fn: "count_list (vis_f meta) n =
           (if IsExported e n \<and> n \<notin> skipFuncs
            then count_list (concat (concat pkgs)) (FuncDecl n False) else 0)"
    by (simp only: f count_list_sort count_list_funcOf)
  have v: "count_list (vis_v meta) n =
           (if IsExported e n \<and> n \<in> expectVals
            then length (filter (\<lambda>nd. firstName nd = Some n) (concat (concat pkgs))) else 0)"
    by (simp only: f count_list_valueOf)
  have dt: "distinct (vis_t meta)" if "distinct (List.map_filter typeSpecName (concat (concat pkgs)))"
    using distinct_typeOf [OF that, of e] by (simp only: f distinct_sort)
  have df: "distinct (vis_f meta)" if "distinct (List.map_filter topFuncName (concat (concat pkgs)))"
    using distinct_funcOf [OF that, of e] by (simp only: f distinct_sort)
  have dv: "distinct (vis_v meta)" if "distinct (List.map_filter firstName (concat (concat pkgs)))"
    using distinct_valueOf [OF that, of e] by (simp only: f)
  from t fn v dt df dv show ?thesis by blast
qed

theorem name_list_multiplicity_witness:
  "FindPackageLocation (sampleEnv (\<lambda>loc. Inr sampleTree)) (path (samplePkg ''paych''))
     = Inr (''/mod/'' @ pkgPath 9 ''paych'')
   \<and> ParseDir (sampleEnv (\<lambda>loc. Inr sampleTree)) (''/mod/'' @ pkgPath 9 ''paych'') filter_file
     = Inr sampleTree
   \<and> scan (sampleEnv (\<lambda>loc. Inr sampleTree)) (samplePkg ''paych'')
     = Inr \<lparr>pkgName = ''paych'', vis_f = [''Bar''],
            vis_t = [''Abc'', ''Foo'', ''WithdrawBalanceParams''], vis_v = [''NoAllocationID'']\<rparr>
   \<and> distinct (List.map_filter typeSpecName (concat (concat sampleTree)))
   \<and> distinct (List.map_filter topFuncName (concat (concat sampleTree)))
   \<and> distinct (List.map_filter firstName (concat (concat sampleTree)))
   \<and> count_list [''Abc'', ''Foo'', ''WithdrawBalanceParams''] ''Foo'' = 1
   \<and> distinct [''Abc'', ''Foo'', ''WithdrawBalanceParams'']
   \<and> distinct [''Bar'']
   \<and> distinct [''NoAllocationID'']"
proof -
  let ?E = "sampleEnv (\<lambda>loc. Inr sampleTree)"
  let ?M = "\<lparr>pkgName = ''paych'', vis_f = [''Bar''],
            vis_t = [''Abc'', ''Foo'', ''WithdrawBalanceParams''], vis_v = [''NoAllocationID'']\<rparr>"
  have h1: "FindPackageLocation ?E (path (samplePkg ''paych'')) = Inr (''/mod/'' @ pkgPath 9 ''paych'')"
    by (simp add: sampleEnv_def samplePkg_def)
  have h2: "ParseDir ?E (''/mod/'' @ pkgPath 9 ''paych'') filter_file = Inr sampleTree"
    by (simp add: sampleEnv_def)
  have h3: "scan ?E (samplePkg ''paych'') = Inr ?M"
    by (simp add: scan_def sampleEnv_def samplePkg_def sampleTree_def upperAscii_def
        skips_def skipFuncs_def expectVals_def)
  have d1: "distinct (List.map_filter typeSpecName (concat (concat sampleTree)))"
    by (simp add: sampleTree_def map_filter_simps)
  have d2: "distinct (List.map_filter topFuncName (concat (concat sampleTree)))"
    by (simp add: sampleTree_def map_filter_simps)
  have d3: "distinct (List.map_filter firstName (concat (concat sampleTree)))"
    by (simp add: sampleTree_def map_filter_simps)
  from name_list_multiplicity [OF h1 h2 h3, of "''Foo''"] d1 d2 d3
  have "count_list (vis_t ?M) ''Foo'' = 1 \<and> distinct (vis_t ?M) \<and> distinct (vis_f ?M) \<and> distinct (vis_v ?M)"
    by (simp add: sampleEnv_def upperAscii_def skips_def sampleTree_def)
  then have c: "count_list [''Abc'', ''Foo'', ''WithdrawBalanceParams''] ''Foo'' = 1
     \<and> distinct [''Abc'', ''Foo'', ''WithdrawBalanceParams'']
     \<and> distinct [''Bar''] \<and> distinct [''NoAllocationID'']"
    by simp
  from h1 h2 h3 d1 d2 d3 c show ?thesis by blast
qed

theorem duplicate_name_counterexample:
  "ParseDir (sampleEnv (\<lambda>loc. Inr twoFiles)) (''/mod/'' @ pkgPath 9 ''paych'') filter_file
       = Inr [[[TypeSpec ''Foo'' StructType], [TypeSpec ''Foo'' StructType]]]
   \<and> scan (sampleEnv (\<lambda>loc. Inr twoFiles)) (samplePkg ''paych'')
       = Inr \<lparr>pkgName = ''paych'', vis_f = [], vis_t = [''Foo'', ''Foo''], vis_v = []\<rparr>
   \<and> \<not> distinct (vis_t \<lparr>pkgName = ''paych'', vis_f = [], vis_t = [''Foo'', ''Foo''], vis_v = []\<rparr>)"
  by (simp add: scan_def sampleEnv_def samplePkg_def twoFiles_def upperAscii_def skips_def)




lemma scanAll_append:
  "scanAll e (xs @ ys) =
     (case scanAll e xs of
        Inl x \<Rightarrow> Inl x
      | Inr ms \<Rightarrow> (case scanAll e ys of Inl x \<Rightarrow> Inl x | Inr ms' \<Rightarrow> Inr (ms @ ms')))"
  by (induction xs) (simp_all split: sum.splits)

lemma scan_pkgName: "scan e pkg = Inr meta \<Longrightarrow> pkgName meta = name pkg"
  by (auto simp: scan_def walkPkgs_concat Walk_collected collected_def split: sum.splits if_splits)

lemma scanAll_names: "scanAll e pkgs = Inr metas \<Longrightarrow> map pkgName metas = map name pkgs"
proof (induction pkgs arbitrary: metas)
  case Nil
  then show ?case by simp
next
  case (Cons pkg pkgs)
  then show ?case by (auto split: sum.splits dest: scan_pkgName)
qed

lemma filter_same_key:
  "distinct (map f zs) \<Longrightarrow> k \<in> set zs \<Longrightarrow> filter (\<lambda>x. f k = f x) zs = [k]"
proof (induction zs)
  case Nil
  then show ?case by simp
next
  case (Cons z zs)
  show ?case
  proof (cases "k = z")
    case True
    with Cons.prems have "filter (\<lambda>x. f k = f x) zs = []"
      by (auto simp: filter_empty_conv)
    with True show ?thesis by simp
  next
    case False
    with Cons.prems have kin: "k \<in> set zs" by simp
    then have "f k \<in> f ` set zs" by (rule imageI)
    moreover from Cons.prems(1) have "f z \<notin> f ` set zs" by simp
    ultimately have "f k \<noteq> f z" by metis
    moreover from Cons.prems(1) have "distinct (map f zs)" by simp
    ultimately show ?thesis using Cons.IH kin by simp
  qed
qed

lemma sort_key_perm:
  assumes "mset xs = mset ys" and "distinct (map f ys)"
  shows "sort_key f xs = sort_key f ys"
proof (rule properties_for_sort_key)
  show "mset (sort_key f ys) = mset xs" using assms(1) by simp
  have dx: "distinct (map f xs)"
  proof -
    have "mset (map f xs) = mset (map f ys)" using assms(1) by simp
    then show ?thesis using assms(2) by (metis distinct_count_atmost_1 set_mset_mset)
  qed
  have dy: "distinct (map f (sort_key f ys))" using assms(2) by (simp add: distinct_map)
  show "filter (\<lambda>x. f k = f x) (sort_key f ys) = filter (\<lambda>x. f k = f x) xs"
    if "k \<in> set (sort_key f ys)" for k
  proof -
    from that have "k \<in> set xs" using assms(1) by (metis set_sort mset_eq_setD)
    with dx have "filter (\<lambda>x. f k = f x) xs = [k]" by (rule filter_same_key)
    moreover from dy that have "filter (\<lambda>x. f k = f x) (sort_key f ys) = [k]" by (rule filter_same_key)
    ultimately show ?thesis by simp
  qed
  show "sorted (map f (sort_key f ys))" by simp
qed

lemma toList_pendingPkgs:
  "toList (pendingPkgs e) =
     [\<lparr>name = ''market'', path = pkgPath (LatestVersion e) ''market'', ver = LatestVersion e\<rparr>,
      \<lparr>name = ''miner'', path = pkgPath (LatestVersion e) ''miner'', ver = LatestVersion e\<rparr>,
      \<lparr>name = ''paych'', path = pkgPath (Version8 e) ''paych'', ver = Version8 e\<rparr>,
      \<lparr>name = ''verifreg'', path = pkgPath (LatestVersion e) ''verifreg'', ver = LatestVersion e\<rparr>]"
  by (simp add: toList_def pendingPkgs_def)

lemma toList_perm:
  assumes "mset iter = mset (pendingPkgs e)"
  shows "toList iter = toList (pendingPkgs e)"
  unfolding toList_def
proof (rule sort_key_perm)
  show "mset (map snd iter) = mset (map snd (pendingPkgs e))" using assms by simp
  show "distinct (map name (map snd (pendingPkgs e)))" by (simp add: pendingPkgs_def)
qed

lemma importLines_ok:
  "\<forall>m\<in>set metas. map_of (pendingPkgs e) (pkgName m) \<noteq> None \<Longrightarrow>
     importLines e metas =
       Inr (map (\<lambda>n. importLine (path (the (map_of (pendingPkgs e) n)))) (map pkgName metas))"
  by (induction metas) auto

text \<open>
  Claim C5. When the packages before \<open>pkg\<close> in the sorted list have been collected and
  locating \<open>pkg\<close> fails, or parsing its directory fails, \<open>run\<close> returns that error and
  the file system is the one it started with: the write is not reached.
\<close>

theorem run_aborts_before_write:
  assumes "toList iter = before @ pkg # rest"
    and "scanAll e before = Inr metas"
    and "FindPackageLocation e (path pkg) = Inl err
         \<or> (\<exists>loc. FindPackageLocation e (path pkg) = Inr loc \<and> ParseDir e loc filter_file = Inl err)"
  shows "run e iter dst fs = (Some err, fs)"
proof -
  from assms(3) have "scan e pkg = Inl err" by (auto simp: scan_def)
  with assms(1,2) have "scanAll e (toList iter) = Inl err" by (simp add: scanAll_append)
  then show ?thesis by (simp add: run_def)
qed

theorem run_aborts_before_write_witness:
  "toList (pendingPkgs (sampleEnv failingParse))
     = [samplePkg ''market''] @ samplePkg ''miner''
         # [\<lparr>name = ''paych'', path = pkgPath 8 ''paych'', ver = 8\<rparr>, samplePkg ''verifreg'']
   \<and> scanAll (sampleEnv failingParse) [samplePkg ''market'']
     = Inr [\<lparr>pkgName = ''market'', vis_f = [''Bar''],
            vis_t = [''Abc'', ''Foo'', ''WithdrawBalanceParams''], vis_v = [''NoAllocationID'']\<rparr>]
   \<and> FindPackageLocation (sampleEnv failingParse) (path (samplePkg ''miner''))
       = Inr (''/mod/'' @ pkgPath 9 ''miner'')
   \<and> ParseDir (sampleEnv failingParse) (''/mod/'' @ pkgPath 9 ''miner'') filter_file
       = Inl (Error ''expected declaration'')
   \<and> run (sampleEnv failingParse) (pendingPkgs (sampleEnv failingParse)) ''types.go'' Map.empty
       = (Some (Error ''expected declaration''), Map.empty)"
proof -
  let ?E = "sampleEnv failingParse"
  have h1: "toList (pendingPkgs ?E)
     = [samplePkg ''market''] @ samplePkg ''miner''
         # [\<lparr>name = ''paych'', path = pkgPath 8 ''paych'', ver = 8\<rparr>, samplePkg ''verifreg'']"
    by (simp add: toList_def pendingPkgs_def sampleEnv_def samplePkg_def)
  have ne: "''/mod/'' @ pkgPath 9 ''market'' \<noteq> ''/mod/'' @ pkgPath 9 ''miner''"
    by (simp add: pkgPath_def)
  have h2: "scanAll ?E [samplePkg ''market'']
     = Inr [\<lparr>pkgName = ''market'', vis_f = [''Bar''],
            vis_t = [''Abc'', ''Foo'', ''WithdrawBalanceParams''], vis_v = [''NoAllocationID'']\<rparr>]"
    using ne
    by (simp add: scan_def sampleEnv_def samplePkg_def failingParse_def sampleTree_def
        upperAscii_def skips_def skipFuncs_def expectVals_def)
  have h3: "FindPackageLocation ?E (path (samplePkg ''miner'')) = Inr (''/mod/'' @ pkgPath 9 ''miner'')"
    by (simp add: sampleEnv_def samplePkg_def)
  have h4: "ParseDir ?E (''/mod/'' @ pkgPath 9 ''miner'') filter_file = Inl (Error ''expected declaration'')"
    by (simp add: sampleEnv_def failingParse_def)
  from h3 h4 have h5: "FindPackageLocation ?E (path (samplePkg ''miner'')) = Inl (Error ''expected declaration'')
         \<or> (\<exists>loc. FindPackageLocation ?E (path (samplePkg ''miner'')) = Inr loc
              \<and> ParseDir ?E loc filter_file = Inl (Error ''expected declaration''))"
    by blast
  have c: "run ?E (pendingPkgs ?E) ''types.go'' Map.empty = (Some (Error ''expected declaration''), Map.empty)"
    by (rule run_aborts_before_write [OF h1 h2 h5])
  from h1 h2 h3 h4 c show ?thesis by blast
qed

lemma mset_concat_sum: "mset (concat xs) = sum_mset (mset (map mset xs))"
  by (induction xs) simp_all

lemma mset_concat_cong:
  assumes "mset xs = mset ys"
  shows "mset (concat xs) = mset (concat ys)"
proof -
  from assms have "mset (map mset xs) = mset (map mset ys)" by (metis mset_map)
  then show ?thesis by (simp only: mset_concat_sum)
qed

lemma mset_concat_map_cong:
  assumes "mset xs = mset ys"
  shows "mset (concat (map g xs)) = mset (concat (map g ys))"
proof -
  from assms have "mset (map g xs) = mset (map g ys)" by (metis mset_map)
  then show ?thesis by (rule mset_concat_cong)
qed

lemma sameParse_nodes:
  assumes "mset (map mset x) = mset (map mset y)"
  shows "mset (concat (concat x)) = mset (concat (concat y))"
proof -
  from assms have "mset (concat x) = mset (concat y)" by (simp only: mset_concat_sum)
  then show ?thesis by (rule mset_concat_cong)
qed

lemma sort_cong: "mset xs = mset ys \<Longrightarrow> sort xs = sort ys"
  by (rule properties_for_sort) simp_all

lemma set_valueOf: "set (concat (map (valueOf e) ns)) \<subseteq> expectVals"
proof (induction ns)
  case Nil
  show ?case by simp
next
  case (Cons nd ns)
  show ?case
  proof (cases nd)
    case (ValueSpec names)
    then show ?thesis using Cons by (cases names) auto
  qed (use Cons in auto)
qed

lemma only_allowed_value:
  "concat (map (valueOf e) ns) = replicate (length (concat (map (valueOf e) ns))) ''NoAllocationID''"
proof -
  have "\<forall>y\<in>set (concat (map (valueOf e) ns)). y = ''NoAllocationID''"
    using set_valueOf [of e ns] by (auto simp: expectVals_def)
  then show ?thesis by (rule replicate_length_same [symmetric])
qed

lemma values_cong:
  assumes "mset ns = mset ns'"
  shows "concat (map (valueOf e) ns) = concat (map (valueOf e) ns')"
proof -
  from assms have "mset (concat (map (valueOf e) ns)) = mset (concat (map (valueOf e) ns'))"
    by (rule mset_concat_map_cong)
  then have "length (concat (map (valueOf e) ns)) = length (concat (map (valueOf e) ns'))"
    by (rule mset_eq_length)
  then show ?thesis
    using only_allowed_value [of e ns] only_allowed_value [of e ns'] by simp
qed

lemma funcOf_env: "IsExported e' = IsExported e \<Longrightarrow> funcOf e' = funcOf e"
proof
  fix nd
  assume "IsExported e' = IsExported e"
  then show "funcOf e' nd = funcOf e nd" by (cases nd) simp_all
qed

lemma typeOf_env: "IsExported e' = IsExported e \<Longrightarrow> typeOf e' = typeOf e"
proof
  fix nd
  assume "IsExported e' = IsExported e"
  then show "typeOf e' nd = typeOf e nd" by (cases nd) simp_all
qed

lemma valueOf_env: "IsExported e' = IsExported e \<Longrightarrow> valueOf e' = valueOf e"
proof
  fix nd
  assume a: "IsExported e' = IsExported e"
  show "valueOf e' nd = valueOf e nd"
  proof (cases nd)
    case (ValueSpec names)
    then show ?thesis using a by (cases names) simp_all
  qed simp_all
qed

lemma scan_order_independent:
  assumes ex: "IsExported e' = IsExported e"
    and loc: "FindPackageLocation e' = FindPackageLocation e"
    and parse: "\<And>loc. sameParse (ParseDir e loc filter_file) (ParseDir e' loc filter_file)"
  shows "scan e' pkg = scan e pkg"
proof (cases "FindPackageLocation e (path pkg)")
  case (Inl err)
  then show ?thesis by (simp add: scan_def loc)
next
  case (Inr l)
  then have l': "FindPackageLocation e' (path pkg) = Inr l" by (simp add: loc)
  show ?thesis
  proof (cases "ParseDir e l filter_file")
    case (Inl err)
    with parse [of l] have "ParseDir e' l filter_file = Inl err"
      by (cases "ParseDir e' l filter_file") simp_all
    with Inl Inr l' show ?thesis by (simp add: scan_def)
  next
    case x: (Inr x)
    with parse [of l] obtain y where y: "ParseDir e' l filter_file = Inr y"
      and xy: "mset (map mset x) = mset (map mset y)"
      by (cases "ParseDir e' l filter_file") simp_all
    let ?ns = "concat (concat x)" and ?ns' = "concat (concat y)"
    have ms: "mset ?ns = mset ?ns'" using xy by (rule sameParse_nodes)
    then have st: "set ?ns = set ?ns'" by (rule mset_eq_setD)
    have f: "sort (concat (map (funcOf e) ?ns)) = sort (concat (map (funcOf e) ?ns'))"
      using ms by (intro sort_cong mset_concat_map_cong)
    have t: "sort (concat (map (typeOf e) ?ns)) = sort (concat (map (typeOf e) ?ns'))"
      using ms by (intro sort_cong mset_concat_map_cong)
    have v: "concat (map (valueOf e) ?ns) = concat (map (valueOf e) ?ns')"
      using ms by (rule values_cong)
    show ?thesis
      unfolding scan_result [OF Inr x] scan_result [OF l' y]
      by (simp only: funcOf_env [OF ex] typeOf_env [OF ex] valueOf_env [OF ex] f t v st)
  qed
qed

lemma scanAll_order_independent:
  assumes "IsExported e' = IsExported e"
    and "FindPackageLocation e' = FindPackageLocation e"
    and "\<And>loc. sameParse (ParseDir e loc filter_file) (ParseDir e' loc filter_file)"
  shows "scanAll e' pkgs = scanAll e pkgs"
  by (induction pkgs) (simp_all add: scan_order_independent [OF assms] split: sum.splits)

lemma pendingPkgs_env:
  "Version8 e' = Version8 e \<Longrightarrow> LatestVersion e' = LatestVersion e \<Longrightarrow> pendingPkgs e' = pendingPkgs e"
  by (simp add: pendingPkgs_def)

lemma importLines_env:
  "pendingPkgs e' = pendingPkgs e \<Longrightarrow> importLines e' metas = importLines e metas"
  by (induction metas) (simp_all split: option.splits sum.splits)

lemma sorted_same: "\<forall>y\<in>set xs. y = (a::'a::linorder) \<Longrightarrow> sorted xs"
  by (induction xs) auto

lemma scan_sorted:
  assumes "scan e pkg = Inr meta"
  shows "sorted (vis_t meta) \<and> sorted (vis_f meta) \<and> sorted (vis_v meta)"
proof -
  from assms obtain l x where l: "FindPackageLocation e (path pkg) = Inr l"
    and x: "ParseDir e l filter_file = Inr x"
    by (auto simp: scan_def split: sum.splits)
  note f = scan_fields(2,3,4) [OF l x assms]
  have "\<forall>y\<in>set (vis_v meta). y = ''NoAllocationID''"
    using set_valueOf [of e "concat (concat x)"] by (auto simp: f expectVals_def)
  then have "sorted (vis_v meta)" by (rule sorted_same)
  then show ?thesis by (simp add: f)
qed

lemma scanAll_sorted:
  "scanAll e pkgs = Inr metas \<Longrightarrow>
     \<forall>meta\<in>set metas. sorted (vis_t meta) \<and> sorted (vis_f meta) \<and> sorted (vis_v meta)"
proof (induction pkgs arbitrary: metas)
  case Nil
  then show ?case by simp
next
  case (Cons pkg pkgs)
  then show ?case by (auto split: sum.splits dest: scan_sorted)
qed

lemma importLines_names:
  assumes "map pkgName metas = [''market'', ''miner'', ''paych'', ''verifreg'']"
  shows "importLines e metas =
           Inr [importLine (pkgPath (LatestVersion e) ''market''),
                importLine (pkgPath (LatestVersion e) ''miner''),
                importLine (pkgPath (Version8 e) ''paych''),
                importLine (pkgPath (LatestVersion e) ''verifreg'')]"
proof -
  have "\<forall>m\<in>set metas. pkgName m \<in> set (map pkgName metas)" by simp
  then have "\<forall>m\<in>set metas. map_of (pendingPkgs e) (pkgName m) \<noteq> None"
    unfolding assms by (auto simp: pendingPkgs_def)
  from importLines_ok [OF this] show ?thesis
    unfolding assms by (simp add: pendingPkgs_def)
qed

text \<open>
  Claim C6. When formatting the assembled buffer fails, \<open>writeFile\<close> returns the formatting
  error and leaves the file system as it was; and whenever \<open>writeFile\<close> changes the file
  system, the buffer was assembled, formatting it succeeded, and the change is the one
  \<open>os.WriteFile\<close> made with the formatted buffer.
\<close>

theorem writeFile_format_error:
  "(fileBuffer e metas = Inr buf \<and> FmtFile e '''' buf = Inl err
      \<longrightarrow> writeFile e dst metas fs = (Some err, fs))
   \<and> (writeFile e dst metas fs = (r, fs') \<and> fs' \<noteq> fs
      \<longrightarrow> (\<exists>buf formatedBuf. fileBuffer e metas = Inr buf \<and> FmtFile e '''' buf = Inr formatedBuf
             \<and> osWriteFile e dst formatedBuf 493 fs = (r, fs')))"
  by (auto simp: writeFile_def split: sum.splits)

theorem writeFile_format_error_witness:
  "fileBuffer failingFmt [sampleMeta] = Inr sampleBuffer
   \<and> FmtFile failingFmt '''' sampleBuffer = Inl (Error ''format'')
   \<and> writeFile failingFmt ''types.go'' [sampleMeta] Map.empty = (Some (Error ''format''), Map.empty)
   \<and> writeFile (sampleEnv (\<lambda>loc. Inr sampleTree)) ''types.go'' [sampleMeta] Map.empty
       = (None, [''types.go'' \<mapsto> sampleBuffer])
   \<and> [''types.go'' \<mapsto> sampleBuffer] \<noteq> Map.empty
   \<and> fileBuffer (sampleEnv (\<lambda>loc. Inr sampleTree)) [sampleMeta] = Inr sampleBuffer
   \<and> FmtFile (sampleEnv (\<lambda>loc. Inr sampleTree)) '''' sampleBuffer = Inr sampleBuffer"
proof -
  let ?E = "sampleEnv (\<lambda>loc. Inr sampleTree)"
  have b1: "fileBuffer failingFmt [sampleMeta] = Inr sampleBuffer"
    by (simp add: fileBuffer_def pendingPkgs_def failingFmt_def sampleEnv_def groupLines_def
        aliasLines_def aliases_def sampleMeta_def sampleBuffer_def)
  have f1: "FmtFile failingFmt '''' sampleBuffer = Inl (Error ''format'')"
    by (simp add: failingFmt_def)
  from writeFile_format_error [of failingFmt "[sampleMeta]" sampleBuffer "Error ''format''"
      "''types.go''" Map.empty] b1 f1
  have c1: "writeFile failingFmt ''types.go'' [sampleMeta] Map.empty = (Some (Error ''format''), Map.empty)"
    by blast
  have b2: "fileBuffer ?E [sampleMeta] = Inr sampleBuffer"
    by (simp add: fileBuffer_def pendingPkgs_def sampleEnv_def groupLines_def
        aliasLines_def aliases_def sampleMeta_def sampleBuffer_def)
  have f2: "FmtFile ?E '''' sampleBuffer = Inr sampleBuffer"
    by (simp add: sampleEnv_def)
  have w: "writeFile ?E ''types.go'' [sampleMeta] Map.empty = (None, [''types.go'' \<mapsto> sampleBuffer])"
    by (simp add: writeFile_def b2 f2) (simp add: sampleEnv_def)
  have ne: "[''types.go'' \<mapsto> sampleBuffer] \<noteq> Map.empty" by simp
  from b1 f1 c1 w ne b2 f2 show ?thesis by blast
qed

text \<open>
  Claim C7, as the code has it. Whatever the order in which the package map is ranged over,
  when all packages have been collected the text that \<open>writeFile\<close> assembles and hands to
  the formatter is the header comment with the package clause, then one import block with
  one import per package, then one group per package, each beginning with its separator line
  and ending with the blank lines; the groups are in the strictly ascending order of the
  package names, one for each key of the map. The output file holds what the formatter
  returns for that text: the result of \<open>run\<close> is what formatting and writing it give. Of
  the file itself the claim fails: the formatter prunes unused imports, so that a package
  none of whose names is recorded has its group in the file and no import, as the last
  theorem on this claim shows.
\<close>

theorem output_layout:
  assumes "mset iter = mset (pendingPkgs e)"
    and "scanAll e (toList iter) = Inr metas"
  shows "map pkgName metas = [''market'', ''miner'', ''paych'', ''verifreg'']
       \<and> sorted_wrt (<) (map pkgName metas)
       \<and> mset (map pkgName metas) = mset (map fst (pendingPkgs e))
       \<and> fileBuffer e metas =
           Inr (header
                @ (''import ('' @ nl)
                @ concat [importLine (pkgPath (LatestVersion e) ''market''),
                          importLine (pkgPath (LatestVersion e) ''miner''),
                          importLine (pkgPath (Version8 e) ''paych''),
                          importLine (pkgPath (LatestVersion e) ''verifreg'')]
                @ ('')'' @ nl @ nl)
                @ concat (concat (map groupLines metas)))
       \<and> (\<forall>meta\<in>set metas. hd (groupLines meta) = sepLine (pkgName meta)
             \<and> last (groupLines meta) = nl @ nl)
       \<and> run e iter dst fs =
           (case FmtFile e '''' (projr (fileBuffer e metas)) of
              Inl err \<Rightarrow> (Some err, fs)
            | Inr formatedBuf \<Rightarrow> osWriteFile e dst formatedBuf 493 fs)"
proof -
  have tl: "toList iter = toList (pendingPkgs e)" using assms(1) by (rule toList_perm)
  have names: "map pkgName metas = [''market'', ''miner'', ''paych'', ''verifreg'']"
    using scanAll_names [OF assms(2)] by (simp add: tl toList_pendingPkgs)
  have srt: "sorted_wrt (<) (map pkgName metas)" by (simp add: names)
  have ms: "mset (map pkgName metas) = mset (map fst (pendingPkgs e))"
    by (simp add: names pendingPkgs_def)
  have buf: "fileBuffer e metas =
           Inr (header
                @ (''import ('' @ nl)
                @ concat [importLine (pkgPath (LatestVersion e) ''market''),
                          importLine (pkgPath (LatestVersion e) ''miner''),
                          importLine (pkgPath (Version8 e) ''paych''),
                          importLine (pkgPath (LatestVersion e) ''verifreg'')]
                @ ('')'' @ nl @ nl)
                @ concat (concat (map groupLines metas)))"
    by (simp only: fileBuffer_def importLines_names [OF names] sum.case)
  have grp: "\<forall>meta\<in>set metas. hd (groupLines meta) = sepLine (pkgName meta)
             \<and> last (groupLines meta) = nl @ nl"
    by (simp add: groupLines_def)
  have rn: "run e iter dst fs =
           (case FmtFile e '''' (projr (fileBuffer e metas)) of
              Inl err \<Rightarrow> (Some err, fs)
            | Inr formatedBuf \<Rightarrow> osWriteFile e dst formatedBuf 493 fs)"
    by (simp add: run_def assms(2) writeFile_def buf)
  from names srt ms buf grp rn show ?thesis by blast
qed

text \<open>
  Claim C2. Two runs on the same inputs give the same result, the returned error and the
  file system after the run, whatever the order in which each run ranges over the package
  map and over the packages and files that parsing a directory gives; and every name list of
  every collected package is in ascending order. (The list of values is never sorted by the
  code; with the one-name allow-list it holds copies of one name only.)
\<close>

theorem deterministic_output:
  assumes "mset iter = mset (pendingPkgs e)"
    and "mset iter' = mset (pendingPkgs e)"
    and "IsExported e' = IsExported e"
    and "FindPackageLocation e' = FindPackageLocation e"
    and "FmtFile e' = FmtFile e"
    and "osWriteFile e' = osWriteFile e"
    and "Version8 e' = Version8 e"
    and "LatestVersion e' = LatestVersion e"
    and "\<And>loc. sameParse (ParseDir e loc filter_file) (ParseDir e' loc filter_file)"
  shows "run e' iter' dst fs = run e iter dst fs
       \<and> (\<forall>metas. scanAll e (toList iter) = Inr metas \<longrightarrow>
            (\<forall>meta\<in>set metas. sorted (vis_t meta) \<and> sorted (vis_f meta) \<and> sorted (vis_v meta)))"
proof -
  have tl: "toList iter' = toList iter"
    using toList_perm [OF assms(1)] toList_perm [OF assms(2)] by simp
  have sc: "scanAll e' (toList iter) = scanAll e (toList iter)"
    using assms(3,4,9) by (rule scanAll_order_independent)
  have pp: "pendingPkgs e' = pendingPkgs e" using assms(7,8) by (rule pendingPkgs_env)
  have wf: "writeFile e' dst metas fs = writeFile e dst metas fs" for metas
    by (simp add: writeFile_def fileBuffer_def importLines_env [OF pp] assms(5,6) split: sum.splits)
  have "run e' iter' dst fs = run e iter dst fs"
    by (simp add: run_def tl sc wf split: sum.splits)
  then show ?thesis using scanAll_sorted [of e "toList iter"] by blast
qed

lemma sample_scanAll:
  "scanAll (sampleEnv (\<lambda>loc. Inr sampleTree)) (toList (pendingPkgs (sampleEnv (\<lambda>loc. Inr sampleTree))))
     = Inr sampleMetas"
  by (simp add: toList_pendingPkgs scan_def sampleEnv_def sampleTree_def upperAscii_def
      skips_def skipFuncs_def expectVals_def sampleMetas_def)

theorem output_layout_witness:
  "mset (rev (pendingPkgs (sampleEnv (\<lambda>loc. Inr sampleTree))))
     = mset (pendingPkgs (sampleEnv (\<lambda>loc. Inr sampleTree)))
   \<and> scanAll (sampleEnv (\<lambda>loc. Inr sampleTree))
        (toList (rev (pendingPkgs (sampleEnv (\<lambda>loc. Inr sampleTree))))) = Inr sampleMetas
   \<and> map pkgName sampleMetas = [''market'', ''miner'', ''paych'', ''verifreg'']
   \<and> fileBuffer (sampleEnv (\<lambda>loc. Inr sampleTree)) sampleMetas =
           Inr (header
                @ (''import ('' @ nl)
                @ concat [importLine (pkgPath 9 ''market''), importLine (pkgPath 9 ''miner''),
                          importLine (pkgPath 8 ''paych''), importLine (pkgPath 9 ''verifreg'')]
                @ ('')'' @ nl @ nl)
                @ concat (concat (map groupLines sampleMetas)))"
proof -
  let ?E = "sampleEnv (\<lambda>loc. Inr sampleTree)"
  have h1: "mset (rev (pendingPkgs ?E)) = mset (pendingPkgs ?E)" by simp
  have "toList (rev (pendingPkgs ?E)) = toList (pendingPkgs ?E)" using h1 by (rule toList_perm)
  then have h2: "scanAll ?E (toList (rev (pendingPkgs ?E))) = Inr sampleMetas"
    by (simp only: sample_scanAll)
  have v: "LatestVersion ?E = 9 \<and> Version8 ?E = 8" by (simp add: sampleEnv_def)
  from output_layout [OF h1 h2, of "''types.go''" Map.empty]
  have "map pkgName sampleMetas = [''market'', ''miner'', ''paych'', ''verifreg'']
    \<and> fileBuffer ?E sampleMetas =
           Inr (header
                @ (''import ('' @ nl)
                @ concat [importLine (pkgPath 9 ''market''), importLine (pkgPath 9 ''miner''),
                          importLine (pkgPath 8 ''paych''), importLine (pkgPath 9 ''verifreg'')]
                @ ('')'' @ nl @ nl)
                @ concat (concat (map groupLines sampleMetas)))"
    by (simp only: v)
  with h1 h2 show ?thesis by blast
qed

theorem deterministic_output_witness:
  "mset (rev (pendingPkgs (sampleEnv (\<lambda>loc. Inr sampleTree))))
     = mset (pendingPkgs (sampleEnv (\<lambda>loc. Inr sampleTree)))
   \<and> sameParse (Inr sampleTree) (Inr sampleTreePermuted)
   \<and> run (sampleEnv (\<lambda>loc. Inr sampleTreePermuted))
         (rev (pendingPkgs (sampleEnv (\<lambda>loc. Inr sampleTree)))) ''types.go'' Map.empty
     = run (sampleEnv (\<lambda>loc. Inr sampleTree))
         (pendingPkgs (sampleEnv (\<lambda>loc. Inr sampleTree))) ''types.go'' Map.empty
   \<and> scanAll (sampleEnv (\<lambda>loc. Inr sampleTree))
        (toList (pendingPkgs (sampleEnv (\<lambda>loc. Inr sampleTree)))) = Inr sampleMetas
   \<and> sorted [''Abc'', ''Foo'', ''WithdrawBalanceParams''] \<and> sorted [''Bar'']
   \<and> sorted [''NoAllocationID'']"
proof -
  let ?E = "sampleEnv (\<lambda>loc. Inr sampleTree)"
  let ?E' = "sampleEnv (\<lambda>loc. Inr sampleTreePermuted)"
  have h1: "mset (pendingPkgs ?E) = mset (pendingPkgs ?E)" by simp
  have h2: "mset (rev (pendingPkgs ?E)) = mset (pendingPkgs ?E)" by simp
  have sp: "sameParse (Inr sampleTree) (Inr sampleTreePermuted)"
    by (simp add: sampleTree_def sampleTreePermuted_def add_mset_commute)
  have h3: "IsExported ?E' = IsExported ?E" by (simp add: sampleEnv_def)
  have h4: "FindPackageLocation ?E' = FindPackageLocation ?E" by (simp add: sampleEnv_def)
  have h5: "FmtFile ?E' = FmtFile ?E" by (simp add: sampleEnv_def)
  have h6: "osWriteFile ?E' = osWriteFile ?E" by (simp add: sampleEnv_def)
  have h7: "Version8 ?E' = Version8 ?E" by (simp add: sampleEnv_def)
  have h8: "LatestVersion ?E' = LatestVersion ?E" by (simp add: sampleEnv_def)
  have h9: "sameParse (ParseDir ?E loc filter_file) (ParseDir ?E' loc filter_file)" for loc
    using sp by (simp add: sampleEnv_def)
  note d = deterministic_output [OF h1 h2 h3 h4 h5 h6 h7 h8 h9, of "''types.go''" Map.empty]
  from d have r: "run ?E' (rev (pendingPkgs ?E)) ''types.go'' Map.empty
     = run ?E (pendingPkgs ?E) ''types.go'' Map.empty" by blast
  from d sample_scanAll have "\<forall>meta\<in>set sampleMetas.
      sorted (vis_t meta) \<and> sorted (vis_f meta) \<and> sorted (vis_v meta)" by blast
  then have s: "sorted [''Abc'', ''Foo'', ''WithdrawBalanceParams''] \<and> sorted [''Bar'']
      \<and> sorted [''NoAllocationID'']"
    by (simp add: sampleMetas_def)
  from h2 sp r sample_scanAll s show ?thesis by blast
qed

text \<open>
  Claim C9. Every forwarding method of every proxy struct, called on a struct whose
  corresponding \<open>Internal\<close> field holds the function \<open>f\<close>, returns what \<open>f\<close> returns on the
  same arguments, and the world after the call is the one \<open>f\<close> leaves: the method reads the
  struct and does nothing else to it.
\<close>

theorem proxy_forwarding:
  "IProofClientStruct_ComputeProof (Some (st1\<lparr>IProofClient_Internal := (IProofClient_Internal st1)\<lparr>ComputeProof := Some f1\<rparr>\<rparr>)) x1_0 x1_1 x1_2 x1_3 x1_4 x1_5 w
       = Inr (f1 (x1_0, x1_1, x1_2, x1_3, x1_4, x1_5) w)
   \<and> IProofClientStruct_ListConnectedMiners (Some (st2\<lparr>IProofClient_Internal := (IProofClient_Internal st2)\<lparr>ListConnectedMiners := Some f2\<rparr>\<rparr>)) x2_0 w
       = Inr (f2 x2_0 w)
   \<and> IProofClientStruct_ListMinerConnection (Some (st3\<lparr>IProofClient_Internal := (IProofClient_Internal st3)\<lparr>ListMinerConnection := Some f3\<rparr>\<rparr>)) x3_0 x3_1 w
       = Inr (f3 (x3_0, x3_1) w)
   \<and> IProofServiceProviderStruct_ListenProofEvent (Some (st4\<lparr>IProofServiceProvider_Internal := (IProofServiceProvider_Internal st4)\<lparr>ListenProofEvent := Some f4\<rparr>\<rparr>)) x4_0 x4_1 w
       = Inr (f4 (x4_0, x4_1) w)
   \<and> IProofServiceProviderStruct_ResponseProofEvent (Some (st5\<lparr>IProofServiceProvider_Internal := (IProofServiceProvider_Internal st5)\<lparr>ResponseProofEvent := Some f5\<rparr>\<rparr>)) x5_0 x5_1 w
       = Inr (f5 (x5_0, x5_1) w)
   \<and> IWalletClientStruct_ListWalletInfo (Some (st6\<lparr>IWalletClient_Internal := (IWalletClient_Internal st6)\<lparr>ListWalletInfo := Some f6\<rparr>\<rparr>)) x6_0 w
       = Inr (f6 x6_0 w)
   \<and> IWalletClientStruct_ListWalletInfoByWallet (Some (st7\<lparr>IWalletClient_Internal := (IWalletClient_Internal st7)\<lparr>ListWalletInfoByWallet := Some f7\<rparr>\<rparr>)) x7_0 x7_1 w
       = Inr (f7 (x7_0, x7_1) w)
   \<and> IWalletClientStruct_WalletHas (Some (st8\<lparr>IWalletClient_Internal := (IWalletClient_Internal st8)\<lparr>WalletHas := Some f8\<rparr>\<rparr>)) x8_0 x8_1 x8_2 w
       = Inr (f8 (x8_0, x8_1, x8_2) w)
   \<and> IWalletClientStruct_WalletSign (Some (st9\<lparr>IWalletClient_Internal := (IWalletClient_Internal st9)\<lparr>WalletSign := Some f9\<rparr>\<rparr>)) x9_0 x9_1 x9_2 x9_3 x9_4 w
       = Inr (f9 (x9_0, x9_1, x9_2, x9_3, x9_4) w)
   \<and> IWalletServiceProviderStruct_AddNewAddress (Some (st10\<lparr>IWalletServiceProvider_Internal := (IWalletServiceProvider_Internal st10)\<lparr>AddNewAddress := Some f10\<rparr>\<rparr>)) x10_0 x10_1 x10_2 w
       = Inr (f10 (x10_0, x10_1, x10_2) w)
   \<and> IWalletServiceProviderStruct_ListenWalletEvent (Some (st11\<lparr>IWalletServiceProvider_Internal := (IWalletServiceProvider_Internal st11)\<lparr>ListenWalletEvent := Some f11\<rparr>\<rparr>)) x11_0 x11_1 w
       = Inr (f11 (x11_0, x11_1) w)
   \<and> IWalletServiceProviderStruct_RemoveAddress (Some (st12\<lparr>IWalletServiceProvider_Internal := (IWalletServiceProvider_Internal st12)\<lparr>RemoveAddress := Some f12\<rparr>\<rparr>)) x12_0 x12_1 x12_2 w
       = Inr (f12 (x12_0, x12_1, x12_2) w)
   \<and> IWalletServiceProviderStruct_ResponseWalletEvent (Some (st13\<lparr>IWalletServiceProvider_Internal := (IWalletServiceProvider_Internal st13)\<lparr>ResponseWalletEvent := Some f13\<rparr>\<rparr>)) x13_0 x13_1 w
       = Inr (f13 (x13_0, x13_1) w)
   \<and> IWalletServiceProviderStruct_SupportNewAccount (Some (st14\<lparr>IWalletServiceProvider_Internal := (IWalletServiceProvider_Internal st14)\<lparr>SupportNewAccount := Some f14\<rparr>\<rparr>)) x14_0 x14_1 x14_2 w
       = Inr (f14 (x14_0, x14_1, x14_2) w)
   \<and> IMarketClientStruct_IsUnsealed (Some (st15\<lparr>IMarketClient_Internal := (IMarketClient_Internal st15)\<lparr>IsUnsealed := Some f15\<rparr>\<rparr>)) x15_0 x15_1 x15_2 x15_3 x15_4 x15_5 w
       = Inr (f15 (x15_0, x15_1, x15_2, x15_3, x15_4, x15_5) w)
   \<and> IMarketClientStruct_ListMarketConnectionsState (Some (st16\<lparr>IMarketClient_Internal := (IMarketClient_Internal st16)\<lparr>ListMarketConnectionsState := Some f16\<rparr>\<rparr>)) x16_0 w
       = Inr (f16 x16_0 w)
   \<and> IMarketClientStruct_SectorsUnsealPiece (Some (st17\<lparr>IMarketClient_Internal := (IMarketClient_Internal st17)\<lparr>SectorsUnsealPiece := Some f17\<rparr>\<rparr>)) x17_0 x17_1 x17_2 x17_3 x17_4 x17_5 x17_6 w
       = Inr (f17 (x17_0, x17_1, x17_2, x17_3, x17_4, x17_5, x17_6) w)
   \<and> IMarketServiceProviderStruct_ListenMarketEvent (Some (st18\<lparr>IMarketServiceProvider_Internal := (IMarketServiceProvider_Internal st18)\<lparr>ListenMarketEvent := Some f18\<rparr>\<rparr>)) x18_0 x18_1 w
       = Inr (f18 (x18_0, x18_1) w)
   \<and> IMarketServiceProviderStruct_ResponseMarketEvent (Some (st19\<lparr>IMarketServiceProvider_Internal := (IMarketServiceProvider_Internal st19)\<lparr>ResponseMarketEvent := Some f19\<rparr>\<rparr>)) x19_0 x19_1 w
       = Inr (f19 (x19_0, x19_1) w)
   \<and> IGatewayStruct_Version (Some (st20\<lparr>IGateway_Internal := (IGateway_Internal st20)\<lparr>Version := Some f20\<rparr>\<rparr>)) x20_0 w
       = Inr (f20 x20_0 w)"
  by (simp add: callFn_def
      IProofClientStruct_ComputeProof_def IProofClientStruct_ListConnectedMiners_def
      IProofClientStruct_ListMinerConnection_def IProofServiceProviderStruct_ListenProofEvent_def
      IProofServiceProviderStruct_ResponseProofEvent_def IWalletClientStruct_ListWalletInfo_def
      IWalletClientStruct_ListWalletInfoByWallet_def IWalletClientStruct_WalletHas_def
      IWalletClientStruct_WalletSign_def IWalletServiceProviderStruct_AddNewAddress_def
      IWalletServiceProviderStruct_ListenWalletEvent_def IWalletServiceProviderStruct_RemoveAddress_def
      IWalletServiceProviderStruct_ResponseWalletEvent_def IWalletServiceProviderStruct_SupportNewAccount_def
      IMarketClientStruct_IsUnsealed_def IMarketClientStruct_ListMarketConnectionsState_def
      IMarketClientStruct_SectorsUnsealPiece_def IMarketServiceProviderStruct_ListenMarketEvent_def
      IMarketServiceProviderStruct_ResponseMarketEvent_def IGatewayStruct_Version_def)

lemma pruned_scanAll: "scanAll pruningEnv (toList (pendingPkgs pruningEnv)) = Inr prunedMetas"
proof -
  have ne: "''/mod/'' @ pkgPath 9 ''market'' \<noteq> ''/mod/'' @ pkgPath 9 ''verifreg''"
    "''/mod/'' @ pkgPath 9 ''miner'' \<noteq> ''/mod/'' @ pkgPath 9 ''verifreg''"
    "''/mod/'' @ pkgPath 8 ''paych'' \<noteq> ''/mod/'' @ pkgPath 9 ''verifreg''"
    by (simp_all add: pkgPath_def showNat.simps digit_def)
  show ?thesis
    using ne
    by (simp add: toList_pendingPkgs scan_def pruningEnv_def sampleEnv_def skippedOnlyParse_def
        sampleTree_def upperAscii_def skips_def skipFuncs_def expectVals_def prunedMetas_def)
qed

lemma pruned_buffer:
  "fileBuffer pruningEnv prunedMetas =
        Inr (header
             @ (''import ('' @ nl)
             @ concat [importLine (pkgPath 9 ''market''), importLine (pkgPath 9 ''miner''),
                       importLine (pkgPath 8 ''paych''), importLine (pkgPath 9 ''verifreg'')]
             @ ('')'' @ nl @ nl)
             @ concat (concat (map groupLines prunedMetas)))"
  by (simp add: fileBuffer_def pendingPkgs_def pruningEnv_def sampleEnv_def prunedMetas_def)

lemma pruned_format:
  "specFmtFile [] (header
             @ (''import ('' @ nl)
             @ concat [importLine (pkgPath 9 ''market''), importLine (pkgPath 9 ''miner''),
                       importLine (pkgPath 8 ''paych''), importLine (pkgPath 9 ''verifreg'')]
             @ ('')'' @ nl @ nl)
             @ concat (concat (map groupLines prunedMetas))) = Inr prunedFile"
  by code_simp

lemma pruned_run:
  "run pruningEnv (pendingPkgs pruningEnv) ''types.go'' Map.empty
     = (None, [''types.go'' \<mapsto> prunedFile])"
proof -
  have f: "FmtFile pruningEnv = specFmtFile" by (simp add: pruningEnv_def)
  have w: "osWriteFile pruningEnv dst data perm fs = (None, fs(dst \<mapsto> data))" for dst data perm fs
    by (simp add: pruningEnv_def sampleEnv_def)
  show ?thesis
    by (simp only: run_def pruned_scanAll sum.case writeFile_def pruned_buffer f pruned_format w)
qed

lemma pruned_lines:
  "map (\<lambda>l. l @ nl) (filter isImportLine (linesOf prunedFile))
     = [importLine (pkgPath 9 ''market''), importLine (pkgPath 9 ''miner''),
        importLine (pkgPath 8 ''paych'')]
   \<and> sepLine ''verifreg'' \<in> set (map (\<lambda>l. l @ nl) (linesOf prunedFile))"
  by code_simp

theorem pruned_import_counterexample:
  "scanAll pruningEnv (toList (pendingPkgs pruningEnv)) = Inr prunedMetas
   \<and> fileBuffer pruningEnv prunedMetas =
        Inr (header
             @ (''import ('' @ nl)
             @ concat [importLine (pkgPath 9 ''market''), importLine (pkgPath 9 ''miner''),
                       importLine (pkgPath 8 ''paych''), importLine (pkgPath 9 ''verifreg'')]
             @ ('')'' @ nl @ nl)
             @ concat (concat (map groupLines prunedMetas)))
   \<and> run pruningEnv (pendingPkgs pruningEnv) ''types.go'' Map.empty
        = (None, [''types.go'' \<mapsto> prunedFile])
   \<and> map pkgName prunedMetas = [''market'', ''miner'', ''paych'', ''verifreg'']
   \<and> map (\<lambda>l. l @ nl) (filter isImportLine (linesOf prunedFile))
        = [importLine (pkgPath 9 ''market''), importLine (pkgPath 9 ''miner''),
           importLine (pkgPath 8 ''paych'')]
   \<and> sepLine ''verifreg'' \<in> set (map (\<lambda>l. l @ nl) (linesOf prunedFile))"
proof -
  have n: "map pkgName prunedMetas = [''market'', ''miner'', ''paych'', ''verifreg'']"
    by (simp add: prunedMetas_def)
  from pruned_scanAll pruned_buffer pruned_run n pruned_lines show ?thesis by blast
qed

end
